theory Spec2Isabelle
  imports Main "HOL-Library.Char_ord" "HOL-Library.List_Lexorder" "HOL-Library.Sublist"
    "HOL-Library.Multiset_Order"
begin

section \<open>The interface description read by the generator\<close>

text \<open>
  The C++ binding generator of \<^verbatim>\<open>interface/cpp.cc\<close> walks a map from class names to
  \<^verbatim>\<open>isl_class\<close> entries and appends text to one output stream.  The clang declarations it
  reads and the helper predicates of the base generator are declared outside
  \<^verbatim>\<open>cpp.cc\<close>; every answer such a helper gives about a type, a parameter or a function
  travels with the value as an attribute, so no relation between two answers is assumed.

  Strings are byte lists, as \<^verbatim>\<open>std::string\<close> is.  Names and type spellings hold no NUL
  byte, so printing one with \<^verbatim>\<open>%s\<close> appends it whole.

  A type carries its spelling (\<^verbatim>\<open>getAsString\<close>), the spelling of its pointee, the answers
  of \<^verbatim>\<open>is_isl_type\<close>, \<^verbatim>\<open>is_isl_ctx\<close>, \<^verbatim>\<open>is_isl_bool\<close>, \<^verbatim>\<open>is_isl_stat\<close>,
  \<^verbatim>\<open>is_isl_enum\<close>, \<^verbatim>\<open>is_string\<close> and \<^verbatim>\<open>is_callback\<close>, those of clang's
  \<^verbatim>\<open>isEnumeralType\<close> and \<^verbatim>\<open>isIntegerType\<close>, and the function prototype its pointee is
  cast to, which is \<^term>\<open>NoProto\<close> when the cast gives the null pointer.  The arguments of
  a prototype include the trailing user pointer.  A parameter carries the answer of
  \<^verbatim>\<open>keeps\<close> and a function that of \<^verbatim>\<open>gives\<close>.
\<close>

datatype QualType = QualType
    (getAsString: string)
    (pointee_getAsString: string)
    (is_isl_type: bool)
    (is_isl_ctx: bool)
    (is_isl_bool: bool)
    (is_isl_stat: bool)
    (is_isl_enum: bool)
    (isEnumeralType: bool)
    (isIntegerType: bool)
    (is_string: bool)
    (is_callback: bool)
    (getAs_FunctionProtoType: FunctionProtoType)
and FunctionProtoType =
    NoProto
  | FunctionProtoType (proto_getReturnType: QualType) (proto_args: "QualType list")
      (callback_takes_arguments: bool)

record ParmVarDecl =
  param_getName :: string
  param_getType :: QualType
  param_getOriginalType :: QualType
  keeps :: bool

record FunctionDecl =
  getName :: string
  getReturnType :: QualType
  params :: "ParmVarDecl list"
  gives :: bool

text \<open>
  A \<^verbatim>\<open>RecordDecl *\<close> is only handed to \<^verbatim>\<open>find_superclasses\<close>; the null pointer of a
  value-initialised class is \<^term>\<open>None\<close>.  A \<^verbatim>\<open>std::set\<close> of function pointers is the list
  of its elements in iteration order, and the \<^verbatim>\<open>std::map\<close> of method groups is the list of
  its entries in key order.  The member function \<^verbatim>\<open>is_type_subclass\<close> is declared with the
  class, outside \<^verbatim>\<open>cpp.cc\<close>, and its answer is a field.
\<close>

record 'd isl_class =
  name :: string
  subclass_name :: string
  type :: "'d option"
  is_type_subclass :: bool
  constructors :: "FunctionDecl list"
  methods :: "(string \<times> FunctionDecl list) list"
  fn_type :: "FunctionDecl option"
  fn_to_str :: "FunctionDecl option"
  fn_is_equal :: "FunctionDecl option"

datatype function_kind =
    function_kind_static_method
  | function_kind_member_method
  | function_kind_constructor

text \<open>
  The generator object: the flag \<^verbatim>\<open>noexceptions\<close>, the file-level flag
  \<^verbatim>\<open>extensions\<close> (initially true, and never assigned in \<^verbatim>\<open>cpp.cc\<close>), the helpers of
  the base generator that take more than one entity, and the default value that the header
  gives the \<^verbatim>\<open>prefix\<close> argument of \<^verbatim>\<open>print_class_factory_decl\<close>.

  One function of \<^verbatim>\<open>cpp.cc\<close> reads storage that has been released:
  \<^verbatim>\<open>print_exceptional_execution_check\<close> keeps \<^verbatim>\<open>param->getName().str().c_str()\<close>, a
  pointer into a temporary string that is destroyed at the end of that statement, and then
  prints through the pointer twice.  The source does not fix what these reads find, so the
  outcome is an attribute of the run: \<^verbatim>\<open>freed_c_str\<close> takes the string that the
  temporary held and the number of the read, and gives the characters that the read finds,
  or \<^term>\<open>None\<close> when the read stops the run.
\<close>

record 'd cpp_generator =
  noexceptions :: bool
  extensions :: bool
  is_static :: "'d isl_class \<Rightarrow> FunctionDecl \<Rightarrow> bool"
  method_name :: "'d isl_class \<Rightarrow> FunctionDecl \<Rightarrow> string"
  find_superclasses :: "'d option \<Rightarrow> string list"
  default_prefix :: string
  freed_c_str :: "string \<Rightarrow> nat \<Rightarrow> string option"

text \<open>
  What stops a run: \<^verbatim>\<open>die\<close> with its message, the \<^verbatim>\<open>std::out_of_range\<close> that
  \<^verbatim>\<open>substr\<close> and \<^verbatim>\<open>replace\<close> throw and nothing catches, the use of a null pointer,
  \<^verbatim>\<open>getParamDecl(0)\<close> on a function without parameters, and a read through a dangling
  pointer that fails.
\<close>

datatype error = Die string | Out_of_range | Null_pointer | Bad_index | Dangling_pointer

definition NL :: string where
  "NL = [CHR 0x0A]"

definition DQ :: string where
  "DQ = [CHR 0x22]"

definition bindE :: "error + 'a \<Rightarrow> ('a \<Rightarrow> error + 'b) \<Rightarrow> error + 'b" where
  "bindE m f = (case m of Inl e \<Rightarrow> Inl e | Inr x \<Rightarrow> f x)"

lemma bindE_cong [fundef_cong]:
  "m = m' \<Longrightarrow> (\<And>x. m' = Inr x \<Longrightarrow> f x = f' x) \<Longrightarrow> bindE m f = bindE m' f'"
  by (cases m') (simp_all add: bindE_def)

section \<open>Numbers and names\<close>

fun digits :: "nat \<Rightarrow> string" where
  "digits n = (if n < 10 then [char_of (n + 48)] else digits (n div 10) @ [char_of (n mod 10 + 48)])"

declare digits.simps [simp del]

definition to_string :: "int \<Rightarrow> string" where
  "to_string l = (if l < 0 then ''-'' @ digits (nat (- l)) else digits (nat l))"

definition rename_method :: "string \<Rightarrow> string" where
  "rename_method cname =
     (if cname = ''union'' then ''unite''
      else if cname = ''delete'' then ''del''
      else cname)"

section \<open>Type mapping\<close>

definition type2cpp_str :: "string \<Rightarrow> error + string" where
  "type2cpp_str type_str = (if length type_str < 4 then Inl Out_of_range else Inr (drop 4 type_str))"

definition type2cpp_class :: "'d isl_class \<Rightarrow> error + string" where
  "type2cpp_class clazz = type2cpp_str (subclass_name clazz)"

definition isl_bool2cpp :: "'d cpp_generator \<Rightarrow> string" where
  "isl_bool2cpp g = (if noexceptions g then ''isl::boolean'' else ''bool'')"

text \<open>
  \<^verbatim>\<open>typestr.replace(typestr.find("isl_"), sizeof("isl_")-1, "isl::")\<close>: the first occurrence
  of the prefix marker is replaced; when there is none, \<^verbatim>\<open>find\<close> gives \<^verbatim>\<open>npos\<close> and
  \<^verbatim>\<open>replace\<close> throws.
\<close>

fun replace_isl :: "string \<Rightarrow> error + string" where
  "replace_isl [] = Inl Out_of_range"
| "replace_isl (c # cs) =
     (if prefix ''isl_'' (c # cs) then Inr (''isl::'' @ drop 4 (c # cs))
      else bindE (replace_isl cs) (\<lambda>r. Inr (c # r)))"

fun type2cpp :: "'d cpp_generator \<Rightarrow> QualType \<Rightarrow> error + string"
  and generate_callback_type :: "'d cpp_generator \<Rightarrow> FunctionProtoType \<Rightarrow> error + string"
  and callback_args_cpp :: "'d cpp_generator \<Rightarrow> QualType list \<Rightarrow> error + string"
where
  "type2cpp g (QualType s ps it ic ib ist ie en integer str cb proto) =
     (if it then bindE (type2cpp_str ps) (\<lambda>r. Inr (''isl::'' @ r))
      else if ib then Inr (isl_bool2cpp g)
      else if ist then Inr (if noexceptions g then ''isl::stat'' else ''void'')
      else if extensions g \<and> en then replace_isl s
      else if extensions g \<and> ic then Inr ''isl::ctx''
      else if integer then Inr s
      else if str then Inr ''std::string''
      else if cb then generate_callback_type g proto
      else Inl (Die ''Cannot convert type to C++ type''))"
| "generate_callback_type g NoProto = Inl Null_pointer"
| "generate_callback_type g (FunctionProtoType rt args ta) =
     bindE (type2cpp g rt) (\<lambda>rettype_str.
     bindE (callback_args_cpp g args) (\<lambda>a.
     Inr (''std::function<'' @ rettype_str @ ''('' @ a @ '')>'')))"
| "callback_args_cpp g [] = Inr []"
| "callback_args_cpp g [user] = Inr []"
| "callback_args_cpp g (t # t' # ts) =
     bindE (type2cpp g t) (\<lambda>r.
     bindE (callback_args_cpp g (t' # ts)) (\<lambda>rs.
     Inr (r @ (if ts = [] then [] else '', '') @ rs)))"


section \<open>Sequencing of output\<close>

text \<open>
  Every printing function appends to the stream it is given and never reads it, so the model of
  a printing function is the text it appends.  A function that cannot stop the run is a plain
  string; one that can is a sum, and the text written before a fatal error is not kept.
\<close>

fun seqE :: "(error + string) list \<Rightarrow> error + string" where
  "seqE [] = Inr []"
| "seqE (m # ms) = bindE m (\<lambda>a. bindE (seqE ms) (\<lambda>b. Inr (a @ b)))"

section \<open>Class declarations\<close>

definition print_subclass_type :: "'d cpp_generator \<Rightarrow> 'd isl_class \<Rightarrow> error + string" where
  "print_subclass_type g clazz =
     bindE (type2cpp_class clazz) (\<lambda>cppname.
     bindE (type2cpp_str (name clazz)) (\<lambda>supername.
     if \<not> is_type_subclass clazz then Inr []
     else Inr (''  friend '' @ isl_bool2cpp g @ '' '' @ supername @ ''::isa<'' @ cppname @ ''>();'' @ NL
       @ ''  friend '' @ cppname @ '' '' @ supername @ ''::as<'' @ cppname @ ''>();'' @ NL
       @ ''  static const auto type = '' @ subclass_name clazz @ '';'' @ NL)))"

definition print_class_forward_decl :: "'d isl_class \<Rightarrow> error + string" where
  "print_class_forward_decl clazz =
     bindE (type2cpp_class clazz) (\<lambda>cppname. Inr (''class '' @ cppname @ '';'' @ NL))"

definition print_class_factory_decl :: "'d isl_class \<Rightarrow> string \<Rightarrow> error + string" where
  "print_class_factory_decl clazz prfx =
     bindE (type2cpp_class clazz) (\<lambda>cppname.
     if is_type_subclass clazz then Inr []
     else Inr (prfx @ ''inline isl::'' @ cppname @ '' manage(__isl_take '' @ name clazz @ '' *ptr);'' @ NL
       @ prfx @ ''inline isl::'' @ cppname @ '' manage_copy(__isl_keep '' @ name clazz
       @ '' *ptr);'' @ NL))"

definition print_protected_constructors_decl :: "'d isl_class \<Rightarrow> error + string" where
  "print_protected_constructors_decl clazz =
     bindE (type2cpp_class clazz) (\<lambda>cppname.
     Inr (''  inline explicit '' @ cppname @ ''(__isl_take '' @ name clazz @ '' *ptr);'' @ NL))"

definition print_public_constructors_decl :: "'d isl_class \<Rightarrow> error + string" where
  "print_public_constructors_decl clazz =
     bindE (type2cpp_class clazz) (\<lambda>cppname.
     Inr (''  inline /* implicit */ '' @ cppname @ ''();'' @ NL
       @ ''  inline /* implicit */ '' @ cppname @ ''(const isl::'' @ cppname @ '' &obj);'' @ NL))"

definition print_copy_assignment_decl :: "'d isl_class \<Rightarrow> error + string" where
  "print_copy_assignment_decl clazz =
     bindE (type2cpp_class clazz) (\<lambda>cppname.
     Inr (''  inline isl::'' @ cppname @ '' &operator=(isl::'' @ cppname @ '' obj);'' @ NL))"

definition print_destructor_decl :: "'d isl_class \<Rightarrow> error + string" where
  "print_destructor_decl clazz =
     bindE (type2cpp_class clazz) (\<lambda>cppname.
     if is_type_subclass clazz then Inr []
     else Inr (''  inline ~'' @ cppname @ ''();'' @ NL))"

definition print_ptr_decl :: "'d isl_class \<Rightarrow> string" where
  "print_ptr_decl clazz =
     (if is_type_subclass clazz then []
      else ''  inline __isl_give '' @ name clazz @ '' *copy() const &;'' @ NL
        @ ''  inline __isl_give '' @ name clazz @ '' *copy() && = delete;'' @ NL
        @ ''  inline __isl_keep '' @ name clazz @ '' *get() const;'' @ NL
        @ ''  inline __isl_give '' @ name clazz @ '' *release();'' @ NL
        @ ''  inline bool is_null() const;'' @ NL
        @ ''  inline explicit operator bool() const;'' @ NL)"

definition print_downcast_decl :: "'d cpp_generator \<Rightarrow> 'd isl_class \<Rightarrow> string" where
  "print_downcast_decl g clazz =
     (if fn_type clazz = None then []
      else ''  template <class T> inline '' @ isl_bool2cpp g @ '' isa();'' @ NL
        @ ''  template <class T> inline T as();'' @ NL)"

definition print_get_ctx_decl :: string where
  "print_get_ctx_decl = ''  inline isl::ctx get_ctx() const;'' @ NL"

definition print_str_decl :: "'d isl_class \<Rightarrow> string" where
  "print_str_decl clazz =
     (if fn_to_str clazz = None then []
      else ''  inline std::string to_str() const;'' @ NL)"

section \<open>Class implementations\<close>

definition print_throw_NULL_input :: string where
  "print_throw_NULL_input =
     ''    throw isl::exception::create(isl_error_invalid,'' @ NL
     @ ''        '' @ DQ @ ''NULL input'' @ DQ @ '', __FILE__, __LINE__);'' @ NL"

definition print_class_factory_impl :: "'d cpp_generator \<Rightarrow> 'd isl_class \<Rightarrow> error + string" where
  "print_class_factory_impl g clazz =
     bindE (type2cpp_class clazz) (\<lambda>cppname.
     if is_type_subclass clazz then Inr []
     else Inr (''isl::'' @ cppname @ '' manage(__isl_take '' @ name clazz @ '' *ptr) {'' @ NL
       @ (if \<not> noexceptions g then ''  if (!ptr)'' @ NL @ print_throw_NULL_input else [])
       @ ''  return '' @ cppname @ ''(ptr);'' @ NL
       @ ''}'' @ NL
       @ ''isl::'' @ cppname @ '' manage_copy(__isl_keep '' @ name clazz @ '' *ptr) {'' @ NL
       @ (if \<not> noexceptions g
          then ''  if (!ptr)'' @ NL @ print_throw_NULL_input
            @ ''  auto ctx = '' @ name clazz @ ''_get_ctx(ptr);'' @ NL
          else [])
       @ ''  ptr = '' @ name clazz @ ''_copy(ptr);'' @ NL
       @ (if \<not> noexceptions g
          then ''  if (!ptr)'' @ NL
            @ ''    throw exception::create_from_last_error(ctx);'' @ NL
          else [])
       @ ''  return '' @ cppname @ ''(ptr);'' @ NL
       @ ''}'' @ NL))"

definition print_protected_constructors_impl :: "'d isl_class \<Rightarrow> error + string" where
  "print_protected_constructors_impl clazz =
     bindE (type2cpp_class clazz) (\<lambda>cppname.
     bindE (type2cpp_str (name clazz)) (\<lambda>super.
     Inr (cppname @ ''::'' @ cppname @ ''(__isl_take '' @ name clazz @ '' *ptr)'' @ NL
       @ (if is_type_subclass clazz then ''    : '' @ super @ ''(ptr) {}'' @ NL
          else ''    : ptr(ptr) {}'' @ NL))))"

definition print_public_constructors_impl :: "'d cpp_generator \<Rightarrow> 'd isl_class \<Rightarrow> error + string" where
  "print_public_constructors_impl g clazz =
     bindE (type2cpp_class clazz) (\<lambda>cppname.
     bindE (type2cpp_str (name clazz)) (\<lambda>super.
     Inr (cppname @ ''::'' @ cppname @ ''()'' @ NL
       @ (if is_type_subclass clazz then ''    : '' @ super @ ''() {}'' @ NL @ NL
          else ''    : ptr(nullptr) {}'' @ NL @ NL)
       @ cppname @ ''::'' @ cppname @ ''(const isl::'' @ cppname @ '' &obj)'' @ NL
       @ (if is_type_subclass clazz then ''    : '' @ super @ ''(obj)'' @ NL
          else ''    : ptr(obj.copy())'' @ NL)
       @ ''{'' @ NL
       @ (if \<not> noexceptions g \<and> \<not> is_type_subclass clazz
          then ''  if (obj.ptr && !ptr)'' @ NL
            @ ''    throw exception::create_from_last_error('' @ name clazz @ ''_get_ctx(obj.ptr));'' @ NL
          else [])
       @ ''}'' @ NL)))"

definition print_copy_assignment_impl :: "'d isl_class \<Rightarrow> error + string" where
  "print_copy_assignment_impl clazz =
     bindE (type2cpp_class clazz) (\<lambda>cppname.
     Inr (cppname @ '' &'' @ cppname @ ''::operator=(isl::'' @ cppname @ '' obj) {'' @ NL
       @ ''  std::swap(this->ptr, obj.ptr);'' @ NL
       @ ''  return *this;'' @ NL
       @ ''}'' @ NL))"

definition print_destructor_impl :: "'d isl_class \<Rightarrow> error + string" where
  "print_destructor_impl clazz =
     bindE (type2cpp_class clazz) (\<lambda>cppname.
     if is_type_subclass clazz then Inr []
     else Inr (cppname @ ''::~'' @ cppname @ ''() {'' @ NL
       @ ''  if (ptr)'' @ NL
       @ ''    '' @ name clazz @ ''_free(ptr);'' @ NL
       @ ''}'' @ NL))"

definition print_ptr_impl :: "'d isl_class \<Rightarrow> error + string" where
  "print_ptr_impl clazz =
     bindE (type2cpp_class clazz) (\<lambda>cppname.
     if is_type_subclass clazz then Inr []
     else Inr (''__isl_give '' @ name clazz @ '' *'' @ cppname @ ''::copy() const & {'' @ NL
       @ ''  return '' @ name clazz @ ''_copy(ptr);'' @ NL
       @ ''}'' @ NL @ NL
       @ ''__isl_keep '' @ name clazz @ '' *'' @ cppname @ ''::get() const {'' @ NL
       @ ''  return ptr;'' @ NL
       @ ''}'' @ NL @ NL
       @ ''__isl_give '' @ name clazz @ '' *'' @ cppname @ ''::release() {'' @ NL
       @ ''  '' @ name clazz @ '' *tmp = ptr;'' @ NL
       @ ''  ptr = nullptr;'' @ NL
       @ ''  return tmp;'' @ NL
       @ ''}'' @ NL @ NL
       @ ''bool '' @ cppname @ ''::is_null() const {'' @ NL
       @ ''  return ptr == nullptr;'' @ NL
       @ ''}'' @ NL
       @ cppname @ ''::operator bool() const'' @ NL
       @ ''{'' @ NL
       @ ''  return !is_null();'' @ NL
       @ ''}'' @ NL))"

text \<open>
  \<^verbatim>\<open>print_downcast_impl\<close> returns whether anything was printed, together with the text.
\<close>

definition print_downcast_impl :: "'d cpp_generator \<Rightarrow> 'd isl_class \<Rightarrow> error + bool \<times> string" where
  "print_downcast_impl g clazz =
     bindE (type2cpp_class clazz) (\<lambda>cppname.
     case fn_type clazz of
       None \<Rightarrow> Inr (False, [])
     | Some fn \<Rightarrow> Inr (True,
         ''template <class T>'' @ NL
         @ isl_bool2cpp g @ '' '' @ cppname @ ''::isa()'' @ NL
         @ ''{'' @ NL
         @ ''  if (is_null())'' @ NL
         @ (if noexceptions g then ''    return isl::boolean();'' @ NL else print_throw_NULL_input)
         @ ''  return '' @ getName fn @ ''(get()) == T::type;'' @ NL
         @ ''}'' @ NL
         @ ''template <class T>'' @ NL
         @ ''T '' @ cppname @ ''::as()'' @ NL
         @ ''{'' @ NL
         @ (if noexceptions g then ''  if (is_null())'' @ NL @ ''    T();'' @ NL else [])
         @ ''  return isa<T>() ? T(copy()) : T();'' @ NL
         @ ''}'' @ NL))"

definition print_get_ctx_impl :: "'d isl_class \<Rightarrow> error + string" where
  "print_get_ctx_impl clazz =
     bindE (type2cpp_class clazz) (\<lambda>cppname.
     Inr (''isl::ctx '' @ cppname @ ''::get_ctx() const {'' @ NL
       @ ''  return isl::ctx('' @ name clazz @ ''_get_ctx(ptr));'' @ NL
       @ ''}'' @ NL))"

definition print_str_impl :: "'d isl_class \<Rightarrow> error + string" where
  "print_str_impl clazz =
     (if fn_to_str clazz = None then Inr []
      else bindE (type2cpp_class clazz) (\<lambda>cppname.
        Inr (''std::string '' @ cppname @ ''::to_str() const {'' @ NL
          @ ''  char *Tmp = '' @ name clazz @ ''_to_str(get());'' @ NL
          @ ''  if (!Tmp)'' @ NL
          @ ''    return '' @ DQ @ DQ @ '';'' @ NL
          @ ''  std::string S(Tmp);'' @ NL
          @ ''  free(Tmp);'' @ NL
          @ ''  return S;'' @ NL
          @ ''}'' @ NL
          @ NL)))"

definition print_operators_impl :: "'d cpp_generator \<Rightarrow> 'd isl_class \<Rightarrow> error + string" where
  "print_operators_impl g clazz =
     bindE (type2cpp_class clazz) (\<lambda>cppname.
     bindE (case fn_is_equal clazz of
              None \<Rightarrow> Inr []
            | Some fn \<Rightarrow> bindE (type2cpp g (getReturnType fn)) (\<lambda>rt.
                Inr (''inline '' @ rt @ '' operator==(const '' @ cppname @ ''& C1, const ''
                  @ cppname @ ''& C2) {'' @ NL
                  @ ''  return C1.is_equal(C2);'' @ NL
                  @ ''}'' @ NL
                  @ NL))) (\<lambda>eq_text.
     Inr ((if fn_to_str clazz = None then []
           else ''inline std::ostream& operator<<(std::ostream& os, const '' @ cppname @ ''& C) {'' @ NL
             @ ''  os << C.to_str();'' @ NL
             @ ''  return os;'' @ NL
             @ ''}'' @ NL
             @ NL)
       @ eq_text)))"


section \<open>Method bodies: arguments, checks and callbacks\<close>

definition print_method_param_use :: "'d cpp_generator \<Rightarrow> ParmVarDecl \<Rightarrow> bool \<Rightarrow> string" where
  "print_method_param_use g param load_from_this_ptr =
     (let name_str = param_getName param; ty = param_getOriginalType param in
      if extensions g \<and> isEnumeralType ty then ''static_cast<'' @ getAsString ty @ ''>('' @ name_str @ '')''
      else if isIntegerType ty then name_str
      else if is_string ty then name_str @ ''.c_str()''
      else if is_callback ty then name_str @ ''_lambda, '' @ ''&'' @ name_str @ ''_data''
      else (if \<not> load_from_this_ptr \<and> \<not> is_callback ty then name_str @ ''.'' else [])
        @ (if keeps param then ''get()''
           else if load_from_this_ptr then ''copy()''
           else ''release()''))"

text \<open>
  The loop of \<^verbatim>\<open>print_argument_validity_check\<close>: the index of the parameter, the flag
  \<^verbatim>\<open>first\<close>, and the parameters still to visit.  It gives the text and the final flag.
\<close>

fun validity_loop :: "function_kind \<Rightarrow> nat \<Rightarrow> bool \<Rightarrow> ParmVarDecl list \<Rightarrow> string \<times> bool" where
  "validity_loop kind i first [] = ([], first)"
| "validity_loop kind i first (param # ps) =
     (let ty = param_getOriginalType param;
          is_this = (i = 0 \<and> kind = function_kind_member_method) in
      if \<not> is_this \<and> (is_isl_ctx ty \<or> \<not> is_isl_type ty) then validity_loop kind (Suc i) first ps
      else (let r = validity_loop kind (Suc i) False ps in
        ((if first then ''  if ('' else '' || '')
          @ (if is_this then ''!ptr'' else param_getName param @ ''.is_null()'')
          @ fst r, snd r)))"

definition print_argument_validity_check ::
  "'d cpp_generator \<Rightarrow> FunctionDecl \<Rightarrow> function_kind \<Rightarrow> string" where
  "print_argument_validity_check g fd kind =
     (if noexceptions g then []
      else (let r = validity_loop kind 0 True (params fd) in
        if snd r then fst r
        else fst r @ '')'' @ NL @ print_throw_NULL_input))"

definition print_save_ctx :: "'d cpp_generator \<Rightarrow> FunctionDecl \<Rightarrow> function_kind \<Rightarrow> error + string" where
  "print_save_ctx g fd kind =
     (case params fd of
        [] \<Rightarrow> Inl Bad_index
      | param # _ \<Rightarrow>
          if noexceptions g then Inr []
          else if kind = function_kind_member_method then Inr []
          else if is_isl_ctx (param_getOriginalType param) then Inr []
          else (case find (\<lambda>p. is_isl_type (param_getOriginalType p)) (params fd) of
                  None \<Rightarrow> Inr []
                | Some p \<Rightarrow> Inr (''  auto ctx = '' @ param_getName p @ ''.get_ctx();'' @ NL)))"

definition print_method_ctx :: "FunctionDecl \<Rightarrow> function_kind \<Rightarrow> error + string" where
  "print_method_ctx fd kind =
     (case params fd of
        [] \<Rightarrow> Inl Bad_index
      | param # _ \<Rightarrow>
          if kind = function_kind_member_method then Inr ''get_ctx()''
          else if is_isl_ctx (param_getOriginalType param) then Inr (param_getName param)
          else Inr ''ctx'')"

definition print_on_error_continue ::
  "'d cpp_generator \<Rightarrow> FunctionDecl \<Rightarrow> function_kind \<Rightarrow> error + string" where
  "print_on_error_continue g fd kind =
     (if noexceptions g then Inr []
      else bindE (print_method_ctx fd kind) (\<lambda>c.
        Inr (''  options_scoped_set_on_error saved_on_error('' @ c @ '', ISL_ON_ERROR_CONTINUE);'' @ NL)))"

text \<open>
  The loop of \<^verbatim>\<open>print_exceptional_execution_check\<close> over the parameters.  For a
  parameter whose original type is a callback it assigns
  \<^verbatim>\<open>name = param->getName().str().c_str()\<close> and prints two lines with \<^verbatim>\<open>%s\<close> of
  \<^verbatim>\<open>name\<close>; the temporary string is gone by then, so each line holds what its read
  finds.
\<close>

definition rethrow_check :: "'d cpp_generator \<Rightarrow> ParmVarDecl \<Rightarrow> error + string" where
  "rethrow_check g param =
     (if \<not> is_callback (param_getOriginalType param) then Inr []
      else (case freed_c_str g (param_getName param) 0 of
              None \<Rightarrow> Inl Dangling_pointer
            | Some name0 \<Rightarrow>
                (case freed_c_str g (param_getName param) 1 of
                   None \<Rightarrow> Inl Dangling_pointer
                 | Some name1 \<Rightarrow>
                     Inr (''  if ('' @ name0 @ ''_data.eptr)'' @ NL
                       @ ''    std::rethrow_exception('' @ name1 @ ''_data.eptr);'' @ NL))))"

fun rethrow_loop :: "'d cpp_generator \<Rightarrow> ParmVarDecl list \<Rightarrow> error + string" where
  "rethrow_loop g [] = Inr []"
| "rethrow_loop g (param # ps) =
     bindE (rethrow_check g param) (\<lambda>a. bindE (rethrow_loop g ps) (\<lambda>b. Inr (a @ b)))"

definition print_exceptional_execution_check ::
  "'d cpp_generator \<Rightarrow> FunctionDecl \<Rightarrow> function_kind \<Rightarrow> error + string" where
  "print_exceptional_execution_check g fd kind =
     (if noexceptions g then Inr []
      else (let return_type = getReturnType fd in
        bindE (rethrow_loop g (params fd)) (\<lambda>rethrows.
          (let check_neg = (is_isl_stat return_type \<or> is_isl_bool return_type);
               check_null = is_isl_type return_type in
           if \<not> check_null \<and> \<not> check_neg then Inr rethrows
           else bindE (print_method_ctx fd kind) (\<lambda>c.
             Inr (rethrows
               @ (if check_neg then ''  if (res < 0)'' @ NL else ''  if (!res)'' @ NL)
               @ ''    throw exception::create_from_last_error('' @ c @ '');'' @ NL))))))"

definition super2sub :: "'d isl_class \<Rightarrow> string \<Rightarrow> error + bool \<times> string" where
  "super2sub clazz ty =
     (if \<not> is_type_subclass clazz then Inr (False, ty)
      else bindE (type2cpp_str (name clazz)) (\<lambda>super.
        if ty \<noteq> ''isl::'' @ super then Inr (False, ty)
        else bindE (type2cpp_class clazz) (\<lambda>sub. Inr (True, ''isl::'' @ sub))))"

fun callback_args_c :: "nat \<Rightarrow> QualType list \<Rightarrow> string" where
  "callback_args_c i [] = []"
| "callback_args_c i (t # ts) =
     getAsString t @ ''arg_'' @ to_string (int i) @ (if ts = [] then [] else '', '')
     @ callback_args_c (Suc i) ts"

definition generate_callback_args :: "'d cpp_generator \<Rightarrow> QualType \<Rightarrow> bool \<Rightarrow> error + string" where
  "generate_callback_args g ty cpp =
     (case getAs_FunctionProtoType ty of
        NoProto \<Rightarrow> Inl Null_pointer
      | FunctionProtoType rt args ta \<Rightarrow>
          if cpp then callback_args_cpp g args else Inr (callback_args_c 0 args))"

definition print_wrapped_call_noexceptions :: "string \<Rightarrow> QualType \<Rightarrow> string" where
  "print_wrapped_call_noexceptions call rtype =
     ''    auto ret = '' @ call @ '';'' @ NL
     @ (if is_isl_stat rtype then ''    return isl_stat(ret);'' @ NL
        else ''    return ret.release();'' @ NL)"

definition print_wrapped_call :: "'d cpp_generator \<Rightarrow> string \<Rightarrow> QualType \<Rightarrow> string" where
  "print_wrapped_call g call rtype =
     (if noexceptions g then print_wrapped_call_noexceptions call rtype
      else ''    try {'' @ NL
        @ (if is_isl_stat rtype then ''      '' @ call @ '';'' @ NL
           else ''      auto ret = '' @ call @ '';'' @ NL)
        @ (if is_isl_stat rtype then ''      return isl_stat_ok;'' @ NL
           else if is_isl_bool rtype then ''      return ret ? isl_bool_true : isl_bool_false;'' @ NL
           else ''      return ret.release();'' @ NL)
        @ ''    } catch (...) {'' @ NL
        @ ''      data->eptr = std::current_exception();'' @ NL
        @ (if is_isl_stat rtype then ''      return isl_stat_error;'' @ NL
           else if is_isl_bool rtype then ''      return isl_bool_error;'' @ NL
           else ''      return NULL;'' @ NL)
        @ ''    }'' @ NL)"

definition callback_call :: "bool \<Rightarrow> nat \<Rightarrow> string" where
  "callback_call takes num_params =
     ''('' @ ''*data->func)(''
     @ concat (map (\<lambda>i. (if \<not> takes then ''isl::manage_copy'' else ''isl::manage'')
                  @ ''(arg_'' @ to_string (int i) @ '')''
                  @ (if int i \<noteq> int num_params - 2 then '', '' else []))
               [0 ..< num_params - 1])
     @ '')''"

definition print_callback_local :: "'d cpp_generator \<Rightarrow> ParmVarDecl \<Rightarrow> error + string" where
  "print_callback_local g param =
     (let pname = param_getName param; ptype = param_getType param in
      bindE (generate_callback_args g ptype False) (\<lambda>c_args.
      bindE (generate_callback_type g (getAs_FunctionProtoType ptype)) (\<lambda>cpp_args.
      case getAs_FunctionProtoType ptype of
        NoProto \<Rightarrow> Inl Null_pointer
      | FunctionProtoType rtype args takes \<Rightarrow>
          Inr (''  struct '' @ pname @ ''_data {'' @ NL
            @ ''    const '' @ cpp_args @ '' *func;'' @ NL
            @ (if \<not> noexceptions g then ''    std::exception_ptr eptr;'' @ NL else [])
            @ ''  } '' @ pname @ ''_data = { &'' @ pname @ '' };'' @ NL
            @ ''  auto '' @ pname @ ''_lambda = []('' @ c_args @ '') -> '' @ getAsString rtype @ '' {'' @ NL
            @ ''    auto *data = static_cast<struct '' @ pname @ ''_data *>(arg_''
            @ to_string (int (length args) - 1) @ '');'' @ NL
            @ print_wrapped_call g (callback_call takes (length args)) rtype
            @ ''  };'' @ NL))))"


section \<open>The class map\<close>

text \<open>
  \<^verbatim>\<open>classes\<close> is a \<^verbatim>\<open>std::map\<close> from names to classes: the list of its entries in
  key order, strings compared byte by byte.  An element of the map is identified by its key,
  which is how the model reads the address of a class: a function that is handed a reference
  to a class of the map and compares addresses takes the key along with the class.
  \<^verbatim>\<open>classes[k]\<close> gives the class stored at \<open>k\<close> and, when there is none, first stores a
  value-initialised class there: empty strings, empty sets and null pointers.  No function
  reads \<^verbatim>\<open>is_type_subclass\<close> of such a class, since each one that prints a class renders
  its name first and stops there.
\<close>

type_synonym 'd classes = "(string \<times> 'd isl_class) list"

definition default_class :: "'d isl_class" where
  "default_class = \<lparr> name = [], subclass_name = [], type = None, is_type_subclass = False,
     constructors = [], methods = [], fn_type = None, fn_to_str = None, fn_is_equal = None \<rparr>"

definition class_of :: "'d classes \<Rightarrow> string \<Rightarrow> 'd isl_class" where
  "class_of classes k = (case map_of classes k of None \<Rightarrow> default_class | Some c \<Rightarrow> c)"

definition touch :: "'d classes \<Rightarrow> string \<Rightarrow> 'd classes" where
  "touch classes k =
     (if k \<in> fst ` set classes then classes else insort_key fst (k, default_class) classes)"

definition touch_all :: "'d classes \<Rightarrow> string list \<Rightarrow> 'd classes" where
  "touch_all classes ks = fold (\<lambda>k c. touch c k) ks classes"

text \<open>
  An iterator is the key it stands at, \<^term>\<open>None\<close> before the first step; the next entry
  is the first one with a greater key.
\<close>

definition next_entry :: "string option \<Rightarrow> 'd classes \<Rightarrow> (string \<times> 'd isl_class) option" where
  "next_entry cur classes =
     find (\<lambda>e. case cur of None \<Rightarrow> True | Some k \<Rightarrow> k < fst e) classes"

section \<open>Subclasses and implicit conversion\<close>

text \<open>
  The stack \<^verbatim>\<open>parents\<close> holds pointers to elements of the map, that is keys, with the back
  of the vector last.  The loop need not end when the superclass annotations form a cycle, so
  its result is an option.
\<close>

partial_function (option) is_subclass_loop ::
  "'d cpp_generator \<Rightarrow> string \<Rightarrow> string list \<Rightarrow> 'd classes \<Rightarrow> (bool \<times> 'd classes) option" where
  "is_subclass_loop g class_type parents classes =
     (if parents = [] then Some (False, classes)
      else (let candidate = last parents; parents' = butlast parents in
        if class_type = candidate then Some (True, classes)
        else (let superclasses = find_superclasses g (type (class_of classes candidate)) in
          is_subclass_loop g class_type (parents' @ superclasses) (touch_all classes superclasses))))"

declare is_subclass_loop.simps [code]

definition is_subclass ::
  "'d cpp_generator \<Rightarrow> QualType \<Rightarrow> string \<Rightarrow> 'd classes \<Rightarrow> (bool \<times> 'd classes) option" where
  "is_subclass g subclass_type class_type classes =
     (let type_str = pointee_getAsString subclass_type;
          superclasses = find_superclasses g (type (class_of classes type_str)) in
      is_subclass_loop g class_type superclasses
        (touch_all (touch classes type_str) superclasses))"

text \<open>
  A generating function that may touch the class map takes the map and gives, when it returns,
  either the error that stopped the run or its result with the map as it has become.
\<close>

type_synonym ('a, 'd) gen = "'d classes \<Rightarrow> (error + 'a \<times> 'd classes) option"

definition liftE :: "error + 'a \<Rightarrow> ('a, 'd) gen" where
  "liftE m classes = Some (case m of Inl e \<Rightarrow> Inl e | Inr x \<Rightarrow> Inr (x, classes))"

definition bindG :: "('a, 'd) gen \<Rightarrow> ('a \<Rightarrow> ('b, 'd) gen) \<Rightarrow> ('b, 'd) gen" where
  "bindG m f classes =
     (case m classes of
        None \<Rightarrow> None
      | Some (Inl e) \<Rightarrow> Some (Inl e)
      | Some (Inr (x, classes')) \<Rightarrow> f x classes')"

fun seqG :: "(string, 'd) gen list \<Rightarrow> (string, 'd) gen" where
  "seqG [] = liftE (Inr [])"
| "seqG (m # ms) = bindG m (\<lambda>a. bindG (seqG ms) (\<lambda>b. liftE (Inr (a @ b))))"

definition is_implicit_conversion ::
  "'d cpp_generator \<Rightarrow> string \<Rightarrow> FunctionDecl \<Rightarrow> (bool, 'd) gen" where
  "is_implicit_conversion g clazz_key cons classes =
     (case params cons of
        [] \<Rightarrow> Some (Inl Bad_index)
      | param # _ \<Rightarrow>
          (let ty = param_getOriginalType param in
           if length (params cons) \<noteq> 1 then Some (Inr (False, classes))
           else if is_isl_type ty \<and> \<not> is_isl_ctx ty
             then map_option Inr (is_subclass g ty clazz_key classes)
           else Some (Inr (False, classes))))"

definition get_method_kind :: "'d cpp_generator \<Rightarrow> 'd isl_class \<Rightarrow> FunctionDecl \<Rightarrow> function_kind" where
  "get_method_kind g clazz fd =
     (if is_static g clazz fd then function_kind_static_method else function_kind_member_method)"


section \<open>Method headers and bodies\<close>

text \<open>
  The parameter loop of \<^verbatim>\<open>print_method_header\<close>: \<^verbatim>\<open>num_params\<close> drops by one at each
  callback, which hides the user pointer that follows it.
\<close>

function header_params :: "'d cpp_generator \<Rightarrow> ParmVarDecl list \<Rightarrow> int \<Rightarrow> int \<Rightarrow> error + string" where
  "header_params g ps i num_params =
     (if i < num_params then
        (let param = ps ! nat i; ty = param_getOriginalType param in
         bindE (type2cpp g ty) (\<lambda>cpptype.
           (let num_params' = (if is_callback ty then num_params - 1 else num_params) in
            bindE (header_params g ps (i + 1) num_params') (\<lambda>rest.
              Inr ((if keeps param \<or> is_string ty \<or> is_callback ty
                    then ''const '' @ cpptype @ '' &'' @ param_getName param
                    else cpptype @ '' '' @ param_getName param)
                @ (if i \<noteq> num_params' - 1 then '', '' else [])
                @ rest)))))
      else Inr [])"
  by pat_completeness auto
termination
  by (relation "measure (\<lambda>(g, ps, i, n). nat (n - i))") auto

declare header_params.simps [simp del]

definition print_method_header ::
  "'d cpp_generator \<Rightarrow> string \<Rightarrow> 'd isl_class \<Rightarrow> FunctionDecl \<Rightarrow> string \<Rightarrow> bool \<Rightarrow> function_kind
     \<Rightarrow> (string, 'd) gen" where
  "print_method_header g clazz_key clazz fd fullname is_declaration kind =
     (let cname = rename_method (method_name g clazz fd);
          first_param = (if kind = function_kind_member_method then 1 else 0) in
      bindG (liftE (type2cpp g (getReturnType fd))) (\<lambda>rettype_str.
      bindG (liftE (type2cpp_class clazz)) (\<lambda>classname.
      bindG (if is_declaration \<and> kind = function_kind_constructor
             then bindG (is_implicit_conversion g clazz_key fd) (\<lambda>implicit.
                    liftE (Inr (if implicit then ''/* implicit */ '' else ''explicit '')))
             else liftE (Inr [])) (\<lambda>marker.
      bindG (liftE (super2sub clazz rettype_str)) (\<lambda>narrowed.
      bindG (liftE (header_params g (params fd) first_param (int (length (params fd))))) (\<lambda>ps.
      liftE (Inr (
        (if is_declaration
         then ''  '' @ (if kind = function_kind_static_method then ''static '' else [])
           @ ''inline '' @ marker
         else [])
        @ (if kind \<noteq> function_kind_constructor then snd narrowed @ '' '' else [])
        @ (if \<not> is_declaration then classname @ ''::'' else [])
        @ (if kind \<noteq> function_kind_constructor then cname else classname)
        @ ''('' @ ps @ '')''
        @ (if kind = function_kind_member_method then '' const'' else [])
        @ (if is_declaration then '';'' else [])
        @ NL))))))))"

definition print_method_decl ::
  "'d cpp_generator \<Rightarrow> string \<Rightarrow> 'd isl_class \<Rightarrow> string \<Rightarrow> FunctionDecl \<Rightarrow> function_kind
     \<Rightarrow> (string, 'd) gen" where
  "print_method_decl g clazz_key clazz fullname fd kind =
     print_method_header g clazz_key clazz fd fullname True kind"

text \<open>
  The first loop of \<^verbatim>\<open>print_method_impl\<close>: the local declarations of every callback it
  reaches, whether one was found, and the number of parameters that remain exposed.
\<close>

function callback_locals ::
  "'d cpp_generator \<Rightarrow> ParmVarDecl list \<Rightarrow> int \<Rightarrow> int \<Rightarrow> error + string \<times> bool \<times> int" where
  "callback_locals g ps i num_params =
     (if i < num_params then
        (let param = ps ! nat i in
         if is_callback (param_getType param) then
           bindE (print_callback_local g param) (\<lambda>t.
           bindE (callback_locals g ps (i + 1) (num_params - 1)) (\<lambda>r.
           Inr (t @ fst r, True, snd (snd r))))
         else callback_locals g ps (i + 1) num_params)
      else Inr ([], False, num_params))"
  by pat_completeness auto
termination
  by (relation "measure (\<lambda>(g, ps, i, n). nat (n - i))") auto

declare callback_locals.simps [simp del]

definition call_arguments ::
  "'d cpp_generator \<Rightarrow> function_kind \<Rightarrow> ParmVarDecl list \<Rightarrow> int \<Rightarrow> string" where
  "call_arguments g kind ps num_params =
     concat (map (\<lambda>i. print_method_param_use g (ps ! i) (i = 0 \<and> kind = function_kind_member_method)
                    @ (if int i \<noteq> num_params - 1 then '', '' else []))
                 [0 ..< nat num_params])"

definition print_return :: "'d cpp_generator \<Rightarrow> FunctionDecl \<Rightarrow> function_kind \<Rightarrow> bool \<Rightarrow> bool \<Rightarrow> string
     \<Rightarrow> error + string" where
  "print_return g fd kind has_callback returns_super rettype_str =
     (let return_type = getReturnType fd in
      if kind = function_kind_constructor then Inr (''  ptr = res;'' @ NL)
      else if is_isl_type return_type \<or> (noexceptions g \<and> is_isl_bool return_type) then
        (if returns_super then Inr (''  return manage(res).as<'' @ rettype_str @ ''>();'' @ NL)
         else Inr (''  return manage(res);'' @ NL))
      else if has_callback then Inr (''  return '' @ rettype_str @ ''(res);'' @ NL)
      else if is_string return_type then
        Inr (''  std::string tmp(res);'' @ NL
          @ (if gives fd then ''  free(res);'' @ NL else [])
          @ ''  return tmp;'' @ NL)
      else if is_isl_enum return_type then
        bindE (replace_isl (getAsString return_type)) (\<lambda>typestr.
          Inr (''  return static_cast<'' @ typestr @ ''>(res);'' @ NL))
      else Inr (''  return res;'' @ NL))"

definition print_method_impl ::
  "'d cpp_generator \<Rightarrow> string \<Rightarrow> 'd isl_class \<Rightarrow> string \<Rightarrow> FunctionDecl \<Rightarrow> function_kind
     \<Rightarrow> (string, 'd) gen" where
  "print_method_impl g clazz_key clazz fullname fd kind =
     bindG (liftE (type2cpp g (getReturnType fd))) (\<lambda>rettype_str0.
     bindG (liftE (super2sub clazz rettype_str0)) (\<lambda>narrowed.
     bindG (print_method_header g clazz_key clazz fd fullname False kind) (\<lambda>header.
     bindG (liftE (print_save_ctx g fd kind)) (\<lambda>save_ctx.
     bindG (liftE (print_on_error_continue g fd kind)) (\<lambda>on_error.
     bindG (liftE (callback_locals g (params fd) 0 (int (length (params fd))))) (\<lambda>locals.
     bindG (liftE (print_exceptional_execution_check g fd kind)) (\<lambda>check.
     bindG (liftE (print_return g fd kind (fst (snd locals)) (fst narrowed) (snd narrowed)))
       (\<lambda>ret.
     liftE (Inr (
       header
       @ ''{'' @ NL
       @ print_argument_validity_check g fd kind
       @ save_ctx
       @ on_error
       @ fst locals
       @ ''  auto res = '' @ getName fd @ ''(''
       @ call_arguments g kind (params fd) (snd (snd locals))
       @ '');'' @ NL
       @ check
       @ ret
       @ ''}'' @ NL))))))))))"


section \<open>Classes\<close>

text \<open>
  A loop that prints a newline before every element but the first runs the elements with the
  newline put between them.
\<close>

fun separated :: "'a \<Rightarrow> 'a list \<Rightarrow> 'a list" where
  "separated sep [] = []"
| "separated sep [x] = [x]"
| "separated sep (x # y # ys) = x # sep # separated sep (y # ys)"

definition print_constructors_decl :: "'d cpp_generator \<Rightarrow> string \<Rightarrow> 'd isl_class \<Rightarrow> (string, 'd) gen" where
  "print_constructors_decl g clazz_key clazz =
     seqG (map (\<lambda>cons. print_method_decl g clazz_key clazz (getName cons) cons function_kind_constructor)
               (constructors clazz))"

definition print_method_group_decl ::
  "'d cpp_generator \<Rightarrow> string \<Rightarrow> 'd isl_class \<Rightarrow> string \<Rightarrow> FunctionDecl list \<Rightarrow> (string, 'd) gen" where
  "print_method_group_decl g clazz_key clazz fullname fds =
     seqG (map (\<lambda>fd. print_method_decl g clazz_key clazz fullname fd (get_method_kind g clazz fd)) fds)"

definition print_methods_decl :: "'d cpp_generator \<Rightarrow> string \<Rightarrow> 'd isl_class \<Rightarrow> (string, 'd) gen" where
  "print_methods_decl g clazz_key clazz =
     seqG (map (\<lambda>m. print_method_group_decl g clazz_key clazz (fst m) (snd m)) (methods clazz))"

definition print_class :: "'d cpp_generator \<Rightarrow> string \<Rightarrow> 'd isl_class \<Rightarrow> (string, 'd) gen" where
  "print_class g clazz_key clazz =
     bindG (liftE (type2cpp_class clazz)) (\<lambda>cppname.
     seqG [
       liftE (Inr (''// declarations for isl::'' @ cppname @ NL)),
       liftE (print_class_factory_decl clazz (default_prefix g)),
       liftE (Inr (NL @ ''class '' @ cppname @ '' '')),
       liftE (if is_type_subclass clazz
              then bindE (type2cpp_str (name clazz)) (\<lambda>super. Inr ('': public '' @ super @ '' ''))
              else Inr []),
       liftE (Inr (''{'' @ NL)),
       liftE (print_subclass_type g clazz),
       liftE (print_class_factory_decl clazz ''  friend ''),
       liftE (Inr (NL @ ''protected:'' @ NL)),
       liftE (Inr (if \<not> is_type_subclass clazz
                   then ''  '' @ name clazz @ '' *ptr = nullptr;'' @ NL @ NL else [])),
       liftE (print_protected_constructors_decl clazz),
       liftE (Inr (NL @ ''public:'' @ NL)),
       liftE (print_public_constructors_decl clazz),
       print_constructors_decl g clazz_key clazz,
       liftE (print_copy_assignment_decl clazz),
       liftE (print_destructor_decl clazz),
       liftE (Inr (print_ptr_decl clazz)),
       liftE (Inr (print_downcast_decl g clazz)),
       liftE (Inr print_get_ctx_decl),
       liftE (Inr (print_str_decl clazz)),
       liftE (Inr NL),
       print_methods_decl g clazz_key clazz,
       liftE (Inr (''  typedef '' @ name clazz @ ''* isl_ptr_t;'' @ NL)),
       liftE (Inr (''};'' @ NL))])"

definition print_constructors_impl :: "'d cpp_generator \<Rightarrow> string \<Rightarrow> 'd isl_class \<Rightarrow> (string, 'd) gen" where
  "print_constructors_impl g clazz_key clazz =
     seqG (map (\<lambda>cons. print_method_impl g clazz_key clazz (getName cons) cons function_kind_constructor)
               (constructors clazz))"

definition print_method_group_impl ::
  "'d cpp_generator \<Rightarrow> string \<Rightarrow> 'd isl_class \<Rightarrow> string \<Rightarrow> FunctionDecl list \<Rightarrow> (string, 'd) gen" where
  "print_method_group_impl g clazz_key clazz fullname fds =
     seqG (separated (liftE (Inr NL))
       (map (\<lambda>fd. print_method_impl g clazz_key clazz fullname fd (get_method_kind g clazz fd)) fds))"

definition print_methods_impl :: "'d cpp_generator \<Rightarrow> string \<Rightarrow> 'd isl_class \<Rightarrow> (string, 'd) gen" where
  "print_methods_impl g clazz_key clazz =
     seqG (separated (liftE (Inr NL))
       (map (\<lambda>m. print_method_group_impl g clazz_key clazz (fst m) (snd m)) (methods clazz)))"

definition print_class_impl :: "'d cpp_generator \<Rightarrow> string \<Rightarrow> 'd isl_class \<Rightarrow> (string, 'd) gen" where
  "print_class_impl g clazz_key clazz =
     bindG (liftE (type2cpp_class clazz)) (\<lambda>cppname.
     seqG [
       liftE (Inr (''// implementations for isl::'' @ cppname @ NL)),
       liftE (print_class_factory_impl g clazz),
       liftE (Inr NL),
       liftE (print_public_constructors_impl g clazz),
       liftE (Inr NL),
       liftE (print_protected_constructors_impl clazz),
       liftE (Inr NL),
       print_constructors_impl g clazz_key clazz,
       liftE (Inr NL),
       liftE (print_copy_assignment_impl clazz),
       liftE (Inr NL),
       liftE (print_destructor_impl clazz),
       liftE (Inr NL),
       liftE (print_ptr_impl clazz),
       liftE (if extensions g
              then seqE [Inr NL, print_operators_impl g clazz, Inr NL, print_str_impl clazz]
              else Inr []),
       liftE (Inr NL),
       liftE (bindE (print_downcast_impl g clazz) (\<lambda>r. Inr (snd r @ (if fst r then NL else [])))),
       liftE (print_get_ctx_impl clazz),
       liftE (Inr NL),
       print_methods_impl g clazz_key clazz])"

section \<open>The three passes\<close>

definition print_forward_declarations :: "'d classes \<Rightarrow> error + string" where
  "print_forward_declarations classes =
     seqE (Inr (''// forward declarations'' @ NL)
       # map (\<lambda>e. print_class_forward_decl (snd e)) classes)"

text \<open>
  The loops of \<^verbatim>\<open>print_declarations\<close> and \<^verbatim>\<open>print_implementations\<close> step an iterator
  through the map while the body may store new entries in it; a blank line goes before
  every class but the first.
\<close>

partial_function (option) for_each_class ::
  "(string \<Rightarrow> 'd isl_class \<Rightarrow> (string, 'd) gen) \<Rightarrow> string option \<Rightarrow> 'd classes
     \<Rightarrow> (error + string \<times> 'd classes) option" where
  "for_each_class body cur classes =
     (case next_entry cur classes of
        None \<Rightarrow> Some (Inr ([], classes))
      | Some e \<Rightarrow>
          Option.bind (body (fst e) (snd e) classes) (\<lambda>r.
            case r of
              Inl err \<Rightarrow> Some (Inl err)
            | Inr tc \<Rightarrow>
                Option.bind (for_each_class body (Some (fst e)) (snd tc)) (\<lambda>r'.
                  case r' of
                    Inl err \<Rightarrow> Some (Inl err)
                  | Inr tc' \<Rightarrow>
                      Some (Inr ((if cur = None then [] else NL) @ fst tc @ fst tc', snd tc')))))"

declare for_each_class.simps [code]

definition print_declarations :: "'d cpp_generator \<Rightarrow> (string, 'd) gen" where
  "print_declarations g = for_each_class (print_class g) None"

definition print_implementations :: "'d cpp_generator \<Rightarrow> (string, 'd) gen" where
  "print_implementations g = for_each_class (print_class_impl g) None"

definition generate :: "'d cpp_generator \<Rightarrow> (string, 'd) gen" where
  "generate g =
     seqG [
       liftE (Inr (NL @ ''namespace isl {'' @ NL @ NL)),
       liftE (Inr (if noexceptions g then ''inline namespace noexceptions {'' @ NL @ NL else [])),
       (\<lambda>classes. liftE (print_forward_declarations classes) classes),
       liftE (Inr NL),
       print_declarations g,
       liftE (Inr NL),
       print_implementations g,
       liftE (Inr (if noexceptions g then ''} // namespace noexceptions'' @ NL else [])),
       liftE (Inr (''} // namespace isl'' @ NL))]"


section \<open>A small interface\<close>

text \<open>
  Two classes in the style of the library's headers: sets, with a constructor from a basic set,
  a binary method and a method that takes a callback; and basic sets, annotated as a subclass
  of sets.  A declaration is modelled by the list of superclasses its annotations name.  In
  the example runs a read through the dangling pointer finds the name that the temporary
  held, as it does while the storage has not been used again.
\<close>

definition ex_obj :: "string \<Rightarrow> QualType" where
  "ex_obj n = QualType (n @ '' *'') n True False False False False False False False False NoProto"

definition ex_bool :: QualType where
  "ex_bool = QualType ''isl_bool'' [] False False True False False True True False False NoProto"

definition ex_stat :: QualType where
  "ex_stat = QualType ''isl_stat'' [] False False False True False True True False False NoProto"

definition ex_user :: QualType where
  "ex_user = QualType ''void *'' ''void'' False False False False False False False False False NoProto"

definition ex_callback :: QualType where
  "ex_callback = QualType ''isl_stat (*)(isl_basic_set *, void *)'' ''isl_stat (isl_basic_set *, void *)''
     False False False False False False False False True
     (FunctionProtoType ex_stat [ex_obj ''isl_basic_set'', ex_user] True)"

definition ex_param :: "string \<Rightarrow> QualType \<Rightarrow> bool \<Rightarrow> ParmVarDecl" where
  "ex_param n t k = \<lparr> param_getName = n, param_getType = t, param_getOriginalType = t, keeps = k \<rparr>"

definition ex_gen :: "bool \<Rightarrow> (string list) cpp_generator" where
  "ex_gen nx = \<lparr> noexceptions = nx, extensions = True,
     is_static = (\<lambda>c f. case params f of
                    [] \<Rightarrow> True
                  | p # _ \<Rightarrow>
                      (if is_isl_type (param_getOriginalType p)
                       then pointee_getAsString (param_getOriginalType p) \<noteq> name c
                       else True)),
     method_name = (\<lambda>c f. drop (length (name c) + 1) (getName f)),
     find_superclasses = (\<lambda>d. case d of None \<Rightarrow> [] | Some l \<Rightarrow> l),
     default_prefix = [],
     freed_c_str = (\<lambda>n k. Some n) \<rparr>"

definition ex_intersect :: FunctionDecl where
  "ex_intersect = \<lparr> getName = ''isl_set_intersect'', getReturnType = ex_obj ''isl_set'',
     params = [ex_param ''set1'' (ex_obj ''isl_set'') False, ex_param ''set2'' (ex_obj ''isl_set'') False],
     gives = True \<rparr>"

definition ex_foreach :: FunctionDecl where
  "ex_foreach = \<lparr> getName = ''isl_set_foreach_basic_set'', getReturnType = ex_stat,
     params = [ex_param ''set'' (ex_obj ''isl_set'') True, ex_param ''fn'' ex_callback False,
               ex_param ''user'' ex_user False],
     gives = False \<rparr>"

definition ex_from_basic_set :: FunctionDecl where
  "ex_from_basic_set = \<lparr> getName = ''isl_set_from_basic_set'', getReturnType = ex_obj ''isl_set'',
     params = [ex_param ''bset'' (ex_obj ''isl_basic_set'') False], gives = True \<rparr>"

definition ex_set :: "(string list) isl_class" where
  "ex_set = \<lparr> name = ''isl_set'', subclass_name = ''isl_set'', type = Some [],
     is_type_subclass = False, constructors = [ex_from_basic_set],
     methods = [(''foreach_basic_set'', [ex_foreach]), (''intersect'', [ex_intersect])],
     fn_type = None, fn_to_str = None, fn_is_equal = None \<rparr>"

definition ex_basic_set :: "(string list) isl_class" where
  "ex_basic_set = \<lparr> name = ''isl_basic_set'', subclass_name = ''isl_basic_set'',
     type = Some [''isl_set''], is_type_subclass = False, constructors = [], methods = [],
     fn_type = None, fn_to_str = None, fn_is_equal = None \<rparr>"

definition ex_classes :: "(string list) classes" where
  "ex_classes = [(''isl_basic_set'', ex_basic_set), (''isl_set'', ex_set)]"

text \<open>A run succeeded when it returned and no error stopped it.\<close>

definition succeeded :: "(error + 'a) option \<Rightarrow> bool" where
  "succeeded r = (case r of Some (Inr _) \<Rightarrow> True | _ \<Rightarrow> False)"

text \<open>
  A class with a type function and one of its subclasses, which shares the C type of its
  superclass.
\<close>

definition ex_node :: "(string list) isl_class" where
  "ex_node = \<lparr> name = ''isl_schedule_node'', subclass_name = ''isl_schedule_node'', type = Some [],
     is_type_subclass = False, constructors = [], methods = [],
     fn_type = Some \<lparr> getName = ''isl_schedule_node_get_type'', getReturnType = ex_stat,
       params = [ex_param ''node'' (ex_obj ''isl_schedule_node'') True], gives = False \<rparr>,
     fn_to_str = None, fn_is_equal = None \<rparr>"

definition ex_band :: "(string list) isl_class" where
  "ex_band = \<lparr> name = ''isl_schedule_node'', subclass_name = ''isl_schedule_node_band'', type = Some [],
     is_type_subclass = True, constructors = [], methods = [],
     fn_type = None, fn_to_str = None, fn_is_equal = None \<rparr>"

section \<open>The null tests of a member method\<close>

text \<open>
  What the checks of a member method are to be, in the words of the description: the receiver's
  pointer first, then every argument that is an isl object, that is, whose type is an isl type
  other than the context.  The tests are joined by \<^verbatim>\<open>||\<close>.
\<close>

definition is_isl_object_param :: "ParmVarDecl \<Rightarrow> bool" where
  "is_isl_object_param p =
     (is_isl_type (param_getOriginalType p) \<and> \<not> is_isl_ctx (param_getOriginalType p))"

fun join_or :: "string list \<Rightarrow> string" where
  "join_or [] = []"
| "join_or [x] = x"
| "join_or (x # y # ys) = x @ '' || '' @ join_or (y # ys)"

definition member_null_tests :: "ParmVarDecl list \<Rightarrow> string list" where
  "member_null_tests ps =
     ''!ptr'' # map (\<lambda>p. param_getName p @ ''.is_null()'') (filter is_isl_object_param (tl ps))"

section \<open>The shape of a trampoline\<close>

text \<open>
  What the description asks of the local declarations of a callback.  The closure is invoked
  through the data record on every argument of the C callback but the last, which is the user
  pointer; each argument is wrapped by \<^verbatim>\<open>isl::manage\<close>, or by \<^verbatim>\<open>isl::manage_copy\<close>
  when the callback does not take its arguments.

  A guarded trampoline has a slot for the exception in its data record and a lambda whose
  body, after recovering the record, is one \<^verbatim>\<open>try\<close> block that invokes the closure and
  returns, with a handler that stores the current exception in the slot and returns the
  failure value of the callback's return type.  An unguarded trampoline has no slot and its
  lambda only invokes the closure and returns.
\<close>

definition sentinel :: "QualType \<Rightarrow> string" where
  "sentinel rtype =
     (if is_isl_stat rtype then ''isl_stat_error''
      else if is_isl_bool rtype then ''isl_bool_error''
      else ''NULL'')"

fun comma_separated :: "string list \<Rightarrow> string" where
  "comma_separated [] = []"
| "comma_separated [x] = x"
| "comma_separated (x # y # ys) = x @ '', '' @ comma_separated (y # ys)"

definition closure_invocation :: "FunctionProtoType \<Rightarrow> string" where
  "closure_invocation proto =
     ''(*data->func)(''
     @ comma_separated
         (map (\<lambda>i. (if callback_takes_arguments proto then ''isl::manage'' else ''isl::manage_copy'')
                  @ ''(arg_'' @ to_string (int i) @ '')'')
              [0 ..< length (proto_args proto) - 1])
     @ '')''"

definition trampoline_head :: "ParmVarDecl \<Rightarrow> bool \<Rightarrow> string \<Rightarrow> string \<Rightarrow> string" where
  "trampoline_head param slot cpp_args c_args =
     (let n = param_getName param; proto = getAs_FunctionProtoType (param_getType param) in
      ''  struct '' @ n @ ''_data {'' @ NL
      @ ''    const '' @ cpp_args @ '' *func;'' @ NL
      @ (if slot then ''    std::exception_ptr eptr;'' @ NL else [])
      @ ''  } '' @ n @ ''_data = { &'' @ n @ '' };'' @ NL
      @ ''  auto '' @ n @ ''_lambda = []('' @ c_args @ '') -> ''
      @ getAsString (proto_getReturnType proto) @ '' {'' @ NL
      @ ''    auto *data = static_cast<struct '' @ n @ ''_data *>(arg_''
      @ to_string (int (length (proto_args proto)) - 1) @ '');'' @ NL)"

definition guarded_body :: "FunctionProtoType \<Rightarrow> string" where
  "guarded_body proto =
     (let rtype = proto_getReturnType proto in
      ''    try {'' @ NL
      @ (if is_isl_stat rtype
         then ''      '' @ closure_invocation proto @ '';'' @ NL
           @ ''      return isl_stat_ok;'' @ NL
         else if is_isl_bool rtype
         then ''      auto ret = '' @ closure_invocation proto @ '';'' @ NL
           @ ''      return ret ? isl_bool_true : isl_bool_false;'' @ NL
         else ''      auto ret = '' @ closure_invocation proto @ '';'' @ NL
           @ ''      return ret.release();'' @ NL)
      @ ''    } catch (...) {'' @ NL
      @ ''      data->eptr = std::current_exception();'' @ NL
      @ ''      return '' @ sentinel rtype @ '';'' @ NL
      @ ''    }'' @ NL)"

definition unguarded_body :: "FunctionProtoType \<Rightarrow> string" where
  "unguarded_body proto =
     (let rtype = proto_getReturnType proto in
      ''    auto ret = '' @ closure_invocation proto @ '';'' @ NL
      @ (if is_isl_stat rtype then ''    return isl_stat(ret);'' @ NL
         else ''    return ret.release();'' @ NL))"

text \<open>
  The two renderings of the callback's type that a trampoline quotes, the type of the closure
  and the parameter list of the lambda, are those of \<^verbatim>\<open>generate_callback_type\<close> and
  \<^verbatim>\<open>generate_callback_args\<close>.
\<close>

definition guarded_trampoline :: "'d cpp_generator \<Rightarrow> ParmVarDecl \<Rightarrow> string \<Rightarrow> bool" where
  "guarded_trampoline g param t =
     (\<exists>cpp_args c_args.
        generate_callback_type g (getAs_FunctionProtoType (param_getType param)) = Inr cpp_args
      \<and> generate_callback_args g (param_getType param) False = Inr c_args
      \<and> t = trampoline_head param True cpp_args c_args
          @ guarded_body (getAs_FunctionProtoType (param_getType param))
          @ ''  };'' @ NL)"

definition unguarded_trampoline :: "'d cpp_generator \<Rightarrow> ParmVarDecl \<Rightarrow> string \<Rightarrow> bool" where
  "unguarded_trampoline g param t =
     (\<exists>cpp_args c_args.
        generate_callback_type g (getAs_FunctionProtoType (param_getType param)) = Inr cpp_args
      \<and> generate_callback_args g (param_getType param) False = Inr c_args
      \<and> t = trampoline_head param False cpp_args c_args
          @ unguarded_body (getAs_FunctionProtoType (param_getType param))
          @ ''  };'' @ NL)"

text \<open>
  A callback hides the parameter that follows it, its user pointer: for every callback among
  the parameters before position \<open>i\<close>, one position is taken off the end of the parameter
  list, and parameter \<open>i\<close> is exposed when it lies before the positions taken off.  The
  exposed callbacks are the callback parameters at exposed positions, in order.
\<close>

definition exposed :: "ParmVarDecl list \<Rightarrow> nat \<Rightarrow> bool" where
  "exposed ps i =
     (i + length (filter (\<lambda>p. is_callback (param_getType p)) (take i ps)) < length ps)"

definition exposed_callbacks :: "ParmVarDecl list \<Rightarrow> ParmVarDecl list" where
  "exposed_callbacks ps =
     map (\<lambda>i. ps ! i)
       (filter (\<lambda>i. exposed ps i \<and> is_callback (param_getType (ps ! i))) [0 ..< length ps])"

text \<open>
  A function with two callbacks in a row: the second one stands where the user pointer of the
  first is expected.
\<close>

definition ex_pair :: FunctionDecl where
  "ex_pair = \<lparr> getName = ''isl_set_pair'', getReturnType = ex_stat,
     params = [ex_param ''set'' (ex_obj ''isl_set'') True, ex_param ''f1'' ex_callback False,
               ex_param ''f2'' ex_callback False],
     gives = False \<rparr>"

section \<open>Narrowing of return types\<close>

text \<open>
  The wrapper type of the class whose C type a class shares, the wrapper type of the class
  itself, and the return type a method of the class is to have: the class's own wrapper type
  when the class is a type subclass and the rendered type is the wrapper type of its
  superclass, and the rendered type otherwise.
\<close>

definition parent_wrapper :: "'d isl_class \<Rightarrow> string" where
  "parent_wrapper clazz = ''isl::'' @ drop 4 (name clazz)"

definition own_wrapper :: "'d isl_class \<Rightarrow> string" where
  "own_wrapper clazz = ''isl::'' @ drop 4 (subclass_name clazz)"

definition narrows :: "'d isl_class \<Rightarrow> string \<Rightarrow> bool" where
  "narrows clazz rendered = (is_type_subclass clazz \<and> rendered = parent_wrapper clazz)"

definition narrowed_return_type :: "'d isl_class \<Rightarrow> string \<Rightarrow> string" where
  "narrowed_return_type clazz rendered =
     (if narrows clazz rendered then own_wrapper clazz else rendered)"

text \<open>A method of the subclass that returns an object of the superclass's C type.\<close>

definition ex_tile :: FunctionDecl where
  "ex_tile = \<lparr> getName = ''isl_schedule_node_band_tile'', getReturnType = ex_obj ''isl_schedule_node'',
     params = [ex_param ''node'' (ex_obj ''isl_schedule_node'') False], gives = True \<rparr>"

section \<open>Subtypes\<close>

text \<open>
  The superclasses the annotations of a class name, the relation they span, and its transitive
  closure: \<open>sub\<close> is a transitive subtype of \<open>super\<close> when a chain of one or more
  superclass steps leads from \<open>sub\<close> to \<open>super\<close>.  A constructor converts implicitly when
  it has exactly one parameter, that parameter is an isl object, and the class it points to is
  a transitive subtype of the class under construction.
\<close>

definition superclasses_of :: "'d cpp_generator \<Rightarrow> 'd classes \<Rightarrow> string \<Rightarrow> string list" where
  "superclasses_of g classes c = find_superclasses g (type (class_of classes c))"

definition super_rel :: "'d cpp_generator \<Rightarrow> 'd classes \<Rightarrow> (string \<times> string) set" where
  "super_rel g classes = {(c, s). s \<in> set (superclasses_of g classes c)}"

definition is_transitive_subtype :: "'d cpp_generator \<Rightarrow> 'd classes \<Rightarrow> string \<Rightarrow> string \<Rightarrow> bool" where
  "is_transitive_subtype g classes sub super = ((sub, super) \<in> (super_rel g classes)\<^sup>+)"

definition converts_implicitly :: "'d cpp_generator \<Rightarrow> 'd classes \<Rightarrow> string \<Rightarrow> FunctionDecl \<Rightarrow> bool" where
  "converts_implicitly g classes clazz_key cons =
     (\<exists>param. params cons = [param] \<and> is_isl_object_param param
        \<and> is_transitive_subtype g classes (pointee_getAsString (param_getOriginalType param)) clazz_key)"

text \<open>A rank that falls along every superclass step of the small interface.\<close>

definition ex_rank :: "string \<Rightarrow> nat" where
  "ex_rank c = (if c = ''isl_basic_set'' then 1 else 0)"

section \<open>What a pass may do to the class map\<close>

text \<open>
  The keys of a \<^verbatim>\<open>std::map\<close> are sorted and distinct.  A map is unprintable when it holds
  a class whose \<^verbatim>\<open>subclass_name\<close> is shorter than the prefix that \<^verbatim>\<open>type2cpp\<close> strips,
  as the value-initialised class is.  A pass extends a map when it keeps the keys sorted and
  either leaves the map as it was or leaves it unprintable; it only reads the map when it
  returns it unchanged.
\<close>

definition sorted_keys :: "'d classes \<Rightarrow> bool" where
  "sorted_keys classes = (sorted (map fst classes) \<and> distinct (map fst classes))"

definition unprintable :: "'d classes \<Rightarrow> bool" where
  "unprintable classes = (\<exists>e\<in>set classes. length (subclass_name (snd e)) < 4)"

definition extends :: "'d classes \<Rightarrow> 'd classes \<Rightarrow> bool" where
  "extends cls cls' =
     ((sorted_keys cls \<longrightarrow> sorted_keys cls')
      \<and> (cls' = cls \<or> unprintable cls')
      \<and> (unprintable cls \<longrightarrow> unprintable cls'))"

definition frame :: "('a, 'd) gen \<Rightarrow> bool" where
  "frame m = (\<forall>cls x cls'. m cls = Some (Inr (x, cls')) \<longrightarrow> extends cls cls')"

definition reads_only :: "('a, 'd) gen \<Rightarrow> bool" where
  "reads_only m = (\<forall>cls x cls'. m cls = Some (Inr (x, cls')) \<longrightarrow> cls' = cls)"

definition after :: "string option \<Rightarrow> string \<times> 'd isl_class \<Rightarrow> bool" where
  "after cur e = (case cur of None \<Rightarrow> True | Some k \<Rightarrow> k < fst e)"

section \<open>Properties of the type mapping\<close>

lemma type2cpp_sel:
  "type2cpp g t =
     (if is_isl_type t then bindE (type2cpp_str (pointee_getAsString t)) (\<lambda>r. Inr (''isl::'' @ r))
      else if is_isl_bool t then Inr (isl_bool2cpp g)
      else if is_isl_stat t then Inr (if noexceptions g then ''isl::stat'' else ''void'')
      else if extensions g \<and> isEnumeralType t then replace_isl (getAsString t)
      else if extensions g \<and> is_isl_ctx t then Inr ''isl::ctx''
      else if isIntegerType t then Inr (getAsString t)
      else if is_string t then Inr ''std::string''
      else if is_callback t then generate_callback_type g (getAs_FunctionProtoType t)
      else Inl (Die ''Cannot convert type to C++ type''))"
  by (cases t) simp

text \<open>
  C5.  A type that is \<^verbatim>\<open>isl_bool\<close> (and not an isl object pointer, which the mapper asks
  about first) is rendered as \<^verbatim>\<open>bool\<close> when exceptions are generated and as
  \<^verbatim>\<open>isl::boolean\<close> when they are not; a type that is \<^verbatim>\<open>isl_stat\<close> is rendered as
  \<^verbatim>\<open>void\<close> and as \<^verbatim>\<open>isl::stat\<close>.  The mode is read from the generator at every request.
\<close>

theorem type2cpp_bool_stat:
  "(is_isl_bool t \<and> \<not> is_isl_type t \<longrightarrow>
      type2cpp g t = Inr (if noexceptions g then ''isl::boolean'' else ''bool'')
      \<and> isl_bool2cpp g = (if noexceptions g then ''isl::boolean'' else ''bool''))
   \<and> (is_isl_stat t \<and> \<not> is_isl_bool t \<and> \<not> is_isl_type t \<longrightarrow>
      type2cpp g t = Inr (if noexceptions g then ''isl::stat'' else ''void''))"
  by (simp add: type2cpp_sel isl_bool2cpp_def)

theorem type2cpp_bool_stat_witness:
  "type2cpp (ex_gen False) ex_bool = Inr ''bool''
   \<and> type2cpp (ex_gen True) ex_bool = Inr ''isl::boolean''
   \<and> type2cpp (ex_gen False) ex_stat = Inr ''void''
   \<and> type2cpp (ex_gen True) ex_stat = Inr ''isl::stat''"
  using type2cpp_bool_stat [of ex_bool "ex_gen False"] type2cpp_bool_stat [of ex_bool "ex_gen True"]
    type2cpp_bool_stat [of ex_stat "ex_gen False"] type2cpp_bool_stat [of ex_stat "ex_gen True"]
  by (simp add: ex_bool_def ex_stat_def ex_gen_def)

text \<open>
  C7.  A type that is in none of the categories the mapper asks about (isl object, isl_bool,
  isl_stat, enumeration, context, integer, string, callback) makes \<^verbatim>\<open>type2cpp\<close> call
  \<^verbatim>\<open>die\<close>: the result is the fatal error, in either mode, and never a rendered type.
\<close>

theorem type2cpp_unrecognized_dies:
  assumes "\<not> is_isl_type t" "\<not> is_isl_bool t" "\<not> is_isl_stat t" "\<not> isEnumeralType t"
    "\<not> is_isl_ctx t" "\<not> isIntegerType t" "\<not> is_string t" "\<not> is_callback t"
  shows "type2cpp g t = Inl (Die ''Cannot convert type to C++ type'')
    \<and> (\<forall>r. type2cpp g t \<noteq> Inr r)"
proof -
  have "type2cpp g t = Inl (Die ''Cannot convert type to C++ type'')"
    using assms by (simp add: type2cpp_sel)
  then show ?thesis by simp
qed

theorem type2cpp_unrecognized_dies_witness:
  "type2cpp (ex_gen False) ex_user = Inl (Die ''Cannot convert type to C++ type'')
   \<and> type2cpp (ex_gen True) ex_user = Inl (Die ''Cannot convert type to C++ type'')"
  using type2cpp_unrecognized_dies [of ex_user "ex_gen False"]
    type2cpp_unrecognized_dies [of ex_user "ex_gen True"]
  by (simp add: ex_user_def)

section \<open>Sequencing lemmas\<close>

lemma bindE_Inr_iff: "bindE m f = Inr y \<longleftrightarrow> (\<exists>x. m = Inr x \<and> f x = Inr y)"
  by (cases m) (simp_all add: bindE_def)

lemma bindE_Inr [simp]: "bindE (Inr x) f = f x"
  by (simp add: bindE_def)

lemma bindE_Inl [simp]: "bindE (Inl e) f = Inl e"
  by (simp add: bindE_def)

lemma liftE_Inr_iff: "liftE m cls = Some (Inr (x, cls')) \<longleftrightarrow> m = Inr x \<and> cls' = cls"
  by (cases m) (auto simp: liftE_def)

lemma bindG_Inr_iff:
  "bindG m f cls = Some (Inr (y, cls'')) \<longleftrightarrow>
     (\<exists>x cls'. m cls = Some (Inr (x, cls')) \<and> f x cls' = Some (Inr (y, cls'')))"
  by (auto simp: bindG_def split: option.splits sum.splits)

lemma seqG_Cons_Inr_iff:
  "seqG (m # ms) cls = Some (Inr (t, cls'')) \<longleftrightarrow>
     (\<exists>a b cls'. m cls = Some (Inr (a, cls')) \<and> seqG ms cls' = Some (Inr (b, cls'')) \<and> t = a @ b)"
  by (auto simp: bindG_Inr_iff liftE_Inr_iff)

lemma seqG_nth:
  "seqG ms cls = Some (Inr (t, cls'')) \<Longrightarrow> i < length ms \<Longrightarrow>
   \<exists>pre a post c1 c2. (ms ! i) c1 = Some (Inr (a, c2)) \<and> t = pre @ a @ post"
proof (induction ms arbitrary: i cls t)
  case Nil
  then show ?case by simp
next
  case (Cons m ms)
  from Cons.prems(1) obtain a b cls' where
    m: "m cls = Some (Inr (a, cls'))" and rest: "seqG ms cls' = Some (Inr (b, cls''))"
    and t: "t = a @ b"
    unfolding seqG_Cons_Inr_iff by blast
  show ?case
  proof (cases i)
    case 0
    have "((m # ms) ! i) cls = Some (Inr (a, cls')) \<and> t = [] @ a @ b"
      using 0 m t by simp
    then show ?thesis by blast
  next
    case (Suc j)
    with Cons.prems(2) have "j < length ms" by simp
    from Cons.IH [OF rest this] obtain pre a' post c1 c2 where
      "(ms ! j) c1 = Some (Inr (a', c2))" "b = pre @ a' @ post" by blast
    then have "((m # ms) ! i) c1 = Some (Inr (a', c2)) \<and> t = (a @ pre) @ a' @ post"
      using Suc t by simp
    then show ?thesis by blast
  qed
qed

lemma print_class_contains_ptr_decl:
  fixes cls :: "'d classes"
  assumes "print_class g k clazz cls = Some (Inr (t, cls'))"
  shows "\<exists>pre post. t = pre @ print_ptr_decl clazz @ post"
proof -
  from assms obtain cppname c0 where
    run: "seqG [
       liftE (Inr (''// declarations for isl::'' @ cppname @ NL)),
       liftE (print_class_factory_decl clazz (default_prefix g)),
       liftE (Inr (NL @ ''class '' @ cppname @ '' '')),
       liftE (if is_type_subclass clazz
              then bindE (type2cpp_str (name clazz)) (\<lambda>super. Inr ('': public '' @ super @ '' ''))
              else Inr []),
       liftE (Inr (''{'' @ NL)),
       liftE (print_subclass_type g clazz),
       liftE (print_class_factory_decl clazz ''  friend ''),
       liftE (Inr (NL @ ''protected:'' @ NL)),
       liftE (Inr (if \<not> is_type_subclass clazz
                   then ''  '' @ name clazz @ '' *ptr = nullptr;'' @ NL @ NL else [])),
       liftE (print_protected_constructors_decl clazz),
       liftE (Inr (NL @ ''public:'' @ NL)),
       liftE (print_public_constructors_decl clazz),
       print_constructors_decl g k clazz,
       liftE (print_copy_assignment_decl clazz),
       liftE (print_destructor_decl clazz),
       liftE (Inr (print_ptr_decl clazz)),
       liftE (Inr (print_downcast_decl g clazz)),
       liftE (Inr print_get_ctx_decl),
       liftE (Inr (print_str_decl clazz)),
       liftE (Inr NL),
       print_methods_decl g k clazz,
       liftE (Inr (''  typedef '' @ name clazz @ ''* isl_ptr_t;'' @ NL)),
       liftE (Inr (''};'' @ NL))] c0 = Some (Inr (t, cls'))"
    unfolding print_class_def bindG_Inr_iff by blast
  show ?thesis
    using seqG_nth [OF run, of 15] by (auto simp: liftE_Inr_iff)
qed

section \<open>Handle accessors\<close>

text \<open>
  C10.  For a class that is not a type subclass, the accessor declarations start with
  \<^verbatim>\<open>copy() const &\<close> and the deleted overload \<^verbatim>\<open>copy() && = delete\<close>, and every
  class declaration that is printed holds that deleted overload.  For a type subclass
  \<^verbatim>\<open>print_ptr_decl\<close> prints nothing, and neither does \<^verbatim>\<open>print_ptr_impl\<close>.
\<close>

theorem print_ptr_decl_deletes_rvalue_copy:
  "(\<not> is_type_subclass clazz \<longrightarrow>
      prefix (''  inline __isl_give '' @ name clazz @ '' *copy() const &;'' @ NL
              @ ''  inline __isl_give '' @ name clazz @ '' *copy() && = delete;'' @ NL)
             (print_ptr_decl clazz)
      \<and> (\<forall>g k cls t cls'. print_class g k clazz cls = Some (Inr (t, cls')) \<longrightarrow>
           sublist (''  inline __isl_give '' @ name clazz @ '' *copy() && = delete;'' @ NL) t))
   \<and> (is_type_subclass clazz \<longrightarrow>
      print_ptr_decl clazz = [] \<and> (\<forall>t. print_ptr_impl clazz = Inr t \<longrightarrow> t = []))"
proof (intro conjI impI allI)
  assume root: "\<not> is_type_subclass clazz"
  then show "prefix (''  inline __isl_give '' @ name clazz @ '' *copy() const &;'' @ NL
              @ ''  inline __isl_give '' @ name clazz @ '' *copy() && = delete;'' @ NL)
             (print_ptr_decl clazz)"
    by (simp add: print_ptr_decl_def)
  fix g k cls t cls'
  assume "print_class g k clazz cls = Some (Inr (t, cls'))"
  from print_class_contains_ptr_decl [OF this] obtain pre post where
    "t = pre @ print_ptr_decl clazz @ post" by blast
  then have "t = (pre @ ''  inline __isl_give '' @ name clazz @ '' *copy() const &;'' @ NL)
      @ (''  inline __isl_give '' @ name clazz @ '' *copy() && = delete;'' @ NL)
      @ (''  inline __isl_keep '' @ name clazz @ '' *get() const;'' @ NL
        @ ''  inline __isl_give '' @ name clazz @ '' *release();'' @ NL
        @ ''  inline bool is_null() const;'' @ NL
        @ ''  inline explicit operator bool() const;'' @ NL @ post)"
    using root by (simp add: print_ptr_decl_def)
  then show "sublist (''  inline __isl_give '' @ name clazz @ '' *copy() && = delete;'' @ NL) t"
    unfolding sublist_def by blast
next
  assume sub: "is_type_subclass clazz"
  then show "print_ptr_decl clazz = []" by (simp add: print_ptr_decl_def)
  fix t assume "print_ptr_impl clazz = Inr t"
  then show "t = []" using sub by (auto simp: print_ptr_impl_def bindE_Inr_iff)
qed

theorem print_ptr_decl_deletes_rvalue_copy_witness:
  "prefix (''  inline __isl_give isl_schedule_node *copy() const &;'' @ NL
           @ ''  inline __isl_give isl_schedule_node *copy() && = delete;'' @ NL)
          (print_ptr_decl ex_node)
   \<and> succeeded (print_class (ex_gen False) ''isl_schedule_node'' ex_node [(''isl_schedule_node'', ex_node)])
   \<and> print_ptr_decl ex_band = []
   \<and> print_ptr_impl ex_band = Inr []"
proof -
  have "succeeded (print_class (ex_gen False) ''isl_schedule_node'' ex_node [(''isl_schedule_node'', ex_node)])"
    by code_simp
  moreover have "print_ptr_impl ex_band = Inr []"
    by (simp add: print_ptr_impl_def ex_band_def type2cpp_class_def type2cpp_str_def)
  ultimately show ?thesis
    using print_ptr_decl_deletes_rvalue_copy [of ex_node] print_ptr_decl_deletes_rvalue_copy [of ex_band]
    by (simp add: ex_node_def ex_band_def)
qed


section \<open>Downcasts\<close>

text \<open>
  C6.  The text printed for a class with a type function when no exceptions are generated.
  In \<^verbatim>\<open>isa\<close> the branch for a null receiver returns an invalid \<^verbatim>\<open>isl::boolean\<close>.  In
  \<^verbatim>\<open>as\<close> the branch for a null receiver is the expression statement \<^verbatim>\<open>T();\<close>, which
  builds an empty object and drops it: nothing is returned there, and control goes on to the
  call of \<^verbatim>\<open>isa\<close>.
\<close>

theorem downcast_as_noexceptions_discards_empty_object:
  "print_downcast_impl (ex_gen True) ex_node = Inr (True,
     ''template <class T>'' @ NL
     @ ''isl::boolean schedule_node::isa()'' @ NL
     @ ''{'' @ NL
     @ ''  if (is_null())'' @ NL
     @ ''    return isl::boolean();'' @ NL
     @ ''  return isl_schedule_node_get_type(get()) == T::type;'' @ NL
     @ ''}'' @ NL
     @ ''template <class T>'' @ NL
     @ ''T schedule_node::as()'' @ NL
     @ ''{'' @ NL
     @ ''  if (is_null())'' @ NL
     @ ''    T();'' @ NL
     @ ''  return isa<T>() ? T(copy()) : T();'' @ NL
     @ ''}'' @ NL)"
  by (simp add: print_downcast_impl_def ex_node_def ex_gen_def type2cpp_class_def type2cpp_str_def
      isl_bool2cpp_def)

section \<open>Forward declarations\<close>

lemma succeededE:
  assumes "succeeded r"
  obtains x where "r = Some (Inr x)"
  using assms by (auto simp: succeeded_def split: option.splits sum.splits)

lemma seqE_forward_decls:
  "seqE (map (\<lambda>e. print_class_forward_decl (snd e)) classes) = Inr t \<Longrightarrow>
   t = concat (map (\<lambda>e. ''class '' @ drop 4 (subclass_name (snd e)) @ '';'' @ NL) classes)"
proof (induction classes arbitrary: t)
  case Nil
  then show ?case by simp
next
  case (Cons e classes)
  from Cons.prems obtain a b where
    a: "print_class_forward_decl (snd e) = Inr a"
    and b: "seqE (map (\<lambda>e. print_class_forward_decl (snd e)) classes) = Inr b"
    and t: "t = a @ b"
    by (auto simp: bindE_Inr_iff)
  from a have "a = ''class '' @ drop 4 (subclass_name (snd e)) @ '';'' @ NL"
    by (auto simp: print_class_forward_decl_def type2cpp_class_def type2cpp_str_def bindE_Inr_iff
        split: if_splits)
  with Cons.IH [OF b] t show ?case by simp
qed

lemma print_forward_declarations_text:
  assumes "print_forward_declarations classes = Inr fwd"
  shows "fwd = ''// forward declarations'' @ NL
     @ concat (map (\<lambda>e. ''class '' @ drop 4 (subclass_name (snd e)) @ '';'' @ NL) classes)"
  using assms seqE_forward_decls
  by (auto simp: print_forward_declarations_def bindE_Inr_iff)

lemma ex_generate_succeeds: "succeeded (generate (ex_gen True) ex_classes)"
  by code_simp


section \<open>Method bodies\<close>

lemma print_method_impl_Inr:
  assumes "print_method_impl g k clazz fullname fd kind cls = Some (Inr (out, cls'))"
  obtains rettype_str0 narrowed header save_ctx on_error locals check ret where
    "type2cpp g (getReturnType fd) = Inr rettype_str0"
    "super2sub clazz rettype_str0 = Inr narrowed"
    "print_method_header g k clazz fd fullname False kind cls = Some (Inr (header, cls'))"
    "print_save_ctx g fd kind = Inr save_ctx"
    "print_on_error_continue g fd kind = Inr on_error"
    "callback_locals g (params fd) 0 (int (length (params fd))) = Inr locals"
    "print_exceptional_execution_check g fd kind = Inr check"
    "print_return g fd kind (fst (snd locals)) (fst narrowed) (snd narrowed) = Inr ret"
    "out = header @ ''{'' @ NL @ print_argument_validity_check g fd kind @ save_ctx @ on_error
       @ fst locals @ ''  auto res = '' @ getName fd @ ''(''
       @ call_arguments g kind (params fd) (snd (snd locals)) @ '');'' @ NL @ check @ ret
       @ ''}'' @ NL"
proof -
  from assms obtain rettype_str0 narrowed header c1 save_ctx on_error locals check ret where
    "type2cpp g (getReturnType fd) = Inr rettype_str0"
    "super2sub clazz rettype_str0 = Inr narrowed"
    "print_method_header g k clazz fd fullname False kind cls = Some (Inr (header, c1))"
    "print_save_ctx g fd kind = Inr save_ctx"
    "print_on_error_continue g fd kind = Inr on_error"
    "callback_locals g (params fd) 0 (int (length (params fd))) = Inr locals"
    "print_exceptional_execution_check g fd kind = Inr check"
    "print_return g fd kind (fst (snd locals)) (fst narrowed) (snd narrowed) = Inr ret"
    "Inr (header @ ''{'' @ NL @ print_argument_validity_check g fd kind @ save_ctx @ on_error
       @ fst locals @ ''  auto res = '' @ getName fd @ ''(''
       @ call_arguments g kind (params fd) (snd (snd locals)) @ '');'' @ NL @ check @ ret
       @ ''}'' @ NL) = (Inr out :: error + string)" "cls' = c1"
    unfolding print_method_impl_def bindG_Inr_iff liftE_Inr_iff
    by blast
  then show ?thesis
    using that by blast
qed

lemma join_or_Cons: "ts \<noteq> [] \<Longrightarrow> join_or (t # ts) = t @ '' || '' @ join_or ts"
  by (cases ts) simp_all

lemma validity_loop_args:
  "0 < i \<Longrightarrow>
   validity_loop kind i first ps =
     (let tests = map (\<lambda>p. param_getName p @ ''.is_null()'') (filter is_isl_object_param ps) in
      if tests = [] then ([], first)
      else ((if first then ''  if ('' else '' || '') @ join_or tests, False))"
proof (induction ps arbitrary: i first)
  case Nil
  then show ?case by simp
next
  case (Cons p ps)
  have step: "validity_loop kind (Suc i) b ps =
     (let tests = map (\<lambda>p. param_getName p @ ''.is_null()'') (filter is_isl_object_param ps) in
      if tests = [] then ([], b)
      else ((if b then ''  if ('' else '' || '') @ join_or tests, False))" for b
    by (rule Cons.IH) simp
  show ?case
  proof (cases "is_isl_object_param p")
    case True
    then have obj: "is_isl_type (param_getOriginalType p)" "\<not> is_isl_ctx (param_getOriginalType p)"
      by (simp_all add: is_isl_object_param_def)
    from Cons.prems have "i \<noteq> 0" by simp
    then show ?thesis
      by (simp add: step Let_def obj True join_or_Cons)
  next
    case False
    then have "is_isl_ctx (param_getOriginalType p) \<or> \<not> is_isl_type (param_getOriginalType p)"
      by (auto simp: is_isl_object_param_def)
    moreover from Cons.prems have "i \<noteq> 0" by simp
    ultimately show ?thesis
      using False by (simp add: step Let_def)
  qed
qed

lemma validity_loop_member:
  "ps \<noteq> [] \<Longrightarrow>
   validity_loop function_kind_member_method 0 True ps =
     (''  if ('' @ join_or (member_null_tests ps), False)"
proof (cases ps)
  case Nil
  then show "ps \<noteq> [] \<Longrightarrow> ?thesis" by simp
next
  case (Cons p rest)
  have "validity_loop function_kind_member_method (Suc 0) False rest =
     (let tests = map (\<lambda>p. param_getName p @ ''.is_null()'') (filter is_isl_object_param rest) in
      if tests = [] then ([], False) else ('' || '' @ join_or tests, False))"
    using validity_loop_args [of "Suc 0" function_kind_member_method False rest] by simp
  then show ?thesis
    using Cons by (simp add: member_null_tests_def Let_def join_or_Cons)
qed

lemma print_argument_validity_check_member:
  "params fd \<noteq> [] \<Longrightarrow>
   print_argument_validity_check g fd function_kind_member_method =
     (if noexceptions g then []
      else ''  if ('' @ join_or (member_null_tests (params fd)) @ '')'' @ NL @ print_throw_NULL_input)"
  by (simp add: print_argument_validity_check_def validity_loop_member Let_def)

text \<open>
  C1.  The body of a member method that is printed.  When exceptions are generated, the opening
  brace is followed at once by one \<^verbatim>\<open>if\<close> over the null tests of the receiver and of
  every isl object argument, whose branch is the statement
  \<^verbatim>\<open>throw isl::exception::create(isl_error_invalid, "NULL input", __FILE__, __LINE__);\<close>
  the call of the C function comes later in the text.  When no exceptions are generated,
  \<^verbatim>\<open>print_argument_validity_check\<close> prints nothing, and only the local declarations of
  callbacks stand between the opening brace and the call.
\<close>

theorem member_method_null_check:
  assumes "print_method_impl g k clazz fullname fd function_kind_member_method cls
    = Some (Inr (out, cls'))"
  shows "\<exists>header locals rest.
      print_method_header g k clazz fd fullname False function_kind_member_method cls
        = Some (Inr (header, cls'))
    \<and> callback_locals g (params fd) 0 (int (length (params fd))) = Inr locals
    \<and> (if noexceptions g
       then print_argument_validity_check g fd function_kind_member_method = []
         \<and> out = header @ ''{'' @ NL
             @ fst locals
             @ ''  auto res = '' @ getName fd @ ''('' @ rest
       else out = header @ ''{'' @ NL
             @ ''  if ('' @ join_or (member_null_tests (params fd)) @ '')'' @ NL
             @ ''    throw isl::exception::create(isl_error_invalid,'' @ NL
             @ ''        '' @ DQ @ ''NULL input'' @ DQ @ '', __FILE__, __LINE__);'' @ NL
             @ ''  options_scoped_set_on_error saved_on_error(get_ctx(), ISL_ON_ERROR_CONTINUE);'' @ NL
             @ fst locals
             @ ''  auto res = '' @ getName fd @ ''('' @ rest)"
proof -
  from assms obtain header save_ctx on_error locals rest where
    header: "print_method_header g k clazz fd fullname False function_kind_member_method cls
      = Some (Inr (header, cls'))"
    and save: "print_save_ctx g fd function_kind_member_method = Inr save_ctx"
    and on_error: "print_on_error_continue g fd function_kind_member_method = Inr on_error"
    and locals: "callback_locals g (params fd) 0 (int (length (params fd))) = Inr locals"
    and out: "out = header @ ''{'' @ NL
       @ print_argument_validity_check g fd function_kind_member_method @ save_ctx @ on_error
       @ fst locals @ ''  auto res = '' @ getName fd @ ''('' @ rest"
    by (elim print_method_impl_Inr) simp
  from save have ne: "params fd \<noteq> []"
    by (auto simp: print_save_ctx_def)
  from save ne have save_ctx: "save_ctx = []"
    by (auto simp: print_save_ctx_def split: list.splits if_splits)
  from on_error ne have on_error':
    "on_error = (if noexceptions g then []
       else ''  options_scoped_set_on_error saved_on_error(get_ctx(), ISL_ON_ERROR_CONTINUE);'' @ NL)"
    by (auto simp: print_on_error_continue_def print_method_ctx_def split: list.splits if_splits)
  have check: "print_argument_validity_check g fd function_kind_member_method =
     (if noexceptions g then []
      else ''  if ('' @ join_or (member_null_tests (params fd)) @ '')'' @ NL
        @ ''    throw isl::exception::create(isl_error_invalid,'' @ NL
        @ ''        '' @ DQ @ ''NULL input'' @ DQ @ '', __FILE__, __LINE__);'' @ NL)"
    unfolding print_argument_validity_check_member [OF ne] print_throw_NULL_input_def by simp
  show ?thesis
    using header locals out save_ctx on_error' check
    by (cases "noexceptions g") auto
qed

theorem member_method_null_check_witness:
  "(\<exists>header rest cls'.
      print_method_impl (ex_gen False) ''isl_set'' ex_set ''intersect'' ex_intersect
        function_kind_member_method ex_classes
      = Some (Inr (header @ ''{'' @ NL
          @ ''  if (!ptr || set2.is_null())'' @ NL
          @ ''    throw isl::exception::create(isl_error_invalid,'' @ NL
          @ ''        '' @ DQ @ ''NULL input'' @ DQ @ '', __FILE__, __LINE__);'' @ NL
          @ ''  options_scoped_set_on_error saved_on_error(get_ctx(), ISL_ON_ERROR_CONTINUE);'' @ NL
          @ ''  auto res = isl_set_intersect('' @ rest, cls')))
   \<and> (\<exists>header rest cls'.
      print_method_impl (ex_gen True) ''isl_set'' ex_set ''intersect'' ex_intersect
        function_kind_member_method ex_classes
      = Some (Inr (header @ ''{'' @ NL @ ''  auto res = isl_set_intersect('' @ rest, cls')))"
proof -
  have params: "params ex_intersect
      = [ex_param ''set1'' (ex_obj ''isl_set'') False, ex_param ''set2'' (ex_obj ''isl_set'') False]"
    and nm: "getName ex_intersect = ''isl_set_intersect''"
    by (simp_all add: ex_intersect_def)
  have locals: "callback_locals g (params ex_intersect) 0 (int (length (params ex_intersect)))
      = Inr ([], False, 2)" for g :: "(string list) cpp_generator"
    by (simp add: params callback_locals.simps [of _ _ 0] callback_locals.simps [of _ _ 1]
        callback_locals.simps [of _ _ 2] ex_param_def ex_obj_def)
  have tests: "join_or (member_null_tests (params ex_intersect)) = ''!ptr || set2.is_null()''"
    by (simp add: params member_null_tests_def is_isl_object_param_def ex_param_def ex_obj_def)
  have g: "\<not> noexceptions (ex_gen False)" "noexceptions (ex_gen True)"
    by (simp_all add: ex_gen_def)
  have "succeeded (print_method_impl (ex_gen False) ''isl_set'' ex_set ''intersect'' ex_intersect
        function_kind_member_method ex_classes)"
    by code_simp
  then obtain out1 c1 where run1:
    "print_method_impl (ex_gen False) ''isl_set'' ex_set ''intersect'' ex_intersect
        function_kind_member_method ex_classes = Some (Inr (out1, c1))"
    by (elim succeededE) auto
  have "succeeded (print_method_impl (ex_gen True) ''isl_set'' ex_set ''intersect'' ex_intersect
        function_kind_member_method ex_classes)"
    by code_simp
  then obtain out2 c2 where run2:
    "print_method_impl (ex_gen True) ''isl_set'' ex_set ''intersect'' ex_intersect
        function_kind_member_method ex_classes = Some (Inr (out2, c2))"
    by (elim succeededE) auto
  from member_method_null_check [OF run1] obtain header1 rest1 where
    "out1 = header1 @ ''{'' @ NL
       @ ''  if ('' @ join_or (member_null_tests (params ex_intersect)) @ '')'' @ NL
       @ ''    throw isl::exception::create(isl_error_invalid,'' @ NL
       @ ''        '' @ DQ @ ''NULL input'' @ DQ @ '', __FILE__, __LINE__);'' @ NL
       @ ''  options_scoped_set_on_error saved_on_error(get_ctx(), ISL_ON_ERROR_CONTINUE);'' @ NL
       @ fst ([] :: string, False, 2 :: int)
       @ ''  auto res = '' @ getName ex_intersect @ ''('' @ rest1"
    unfolding locals if_not_P [OF g(1)] by blast
  then have out1: "out1 = header1 @ ''{'' @ NL
       @ ''  if (!ptr || set2.is_null())'' @ NL
       @ ''    throw isl::exception::create(isl_error_invalid,'' @ NL
       @ ''        '' @ DQ @ ''NULL input'' @ DQ @ '', __FILE__, __LINE__);'' @ NL
       @ ''  options_scoped_set_on_error saved_on_error(get_ctx(), ISL_ON_ERROR_CONTINUE);'' @ NL
       @ ''  auto res = isl_set_intersect('' @ rest1"
    unfolding tests nm by simp
  from member_method_null_check [OF run2] obtain header2 rest2 where
    "out2 = header2 @ ''{'' @ NL @ fst ([] :: string, False, 2 :: int)
       @ ''  auto res = '' @ getName ex_intersect @ ''('' @ rest2"
    unfolding locals if_P [OF g(2)] by blast
  then have out2: "out2 = header2 @ ''{'' @ NL @ ''  auto res = isl_set_intersect('' @ rest2"
    unfolding nm by simp
  show ?thesis
    using run1 run2 unfolding out1 out2 by blast
qed


section \<open>Callbacks\<close>

lemma comma_separated_upt:
  "concat (map (\<lambda>i. f i @ (if Suc i \<noteq> m then '', '' else [])) [a ..< m])
     = comma_separated (map f [a ..< m])"
proof (induction "m - a" arbitrary: a)
  case 0
  then show ?case by simp
next
  case (Suc d)
  then have lt: "a < m" and d: "d = m - Suc a" by simp_all
  have upt: "[a ..< m] = a # [Suc a ..< m]"
    using lt by (simp add: upt_conv_Cons)
  show ?case
  proof (cases "Suc a = m")
    case True
    then show ?thesis by (simp add: upt)
  next
    case False
    with lt have "Suc a < m" by simp
    then have "[Suc a ..< m] = Suc a # [Suc (Suc a) ..< m]"
      by (simp add: upt_conv_Cons)
    then show ?thesis
      using Suc.hyps(1) [OF d] False by (simp add: upt)
  qed
qed

lemma callback_call_closure_invocation:
  "callback_call takes (length args) = closure_invocation (FunctionProtoType rtype args takes)"
proof -
  have "concat (map (\<lambda>i. (if \<not> takes then ''isl::manage_copy'' else ''isl::manage'')
                  @ ''(arg_'' @ to_string (int i) @ '')''
                  @ (if int i \<noteq> int (length args) - 2 then '', '' else []))
               [0 ..< length args - 1])
      = concat (map (\<lambda>i. ((if takes then ''isl::manage'' else ''isl::manage_copy'')
                  @ ''(arg_'' @ to_string (int i) @ '')'')
                  @ (if Suc i \<noteq> length args - 1 then '', '' else []))
               [0 ..< length args - 1])"
    by (rule arg_cong [where f = concat], rule map_cong) auto
  then show ?thesis
    unfolding callback_call_def closure_invocation_def FunctionProtoType.sel comma_separated_upt
    by simp
qed

lemma print_callback_local_Inr:
  assumes "print_callback_local g param = Inr t"
  obtains c_args cpp_args rtype args takes where
    "getAs_FunctionProtoType (param_getType param) = FunctionProtoType rtype args takes"
    "generate_callback_args g (param_getType param) False = Inr c_args"
    "generate_callback_type g (getAs_FunctionProtoType (param_getType param)) = Inr cpp_args"
    "t = ''  struct '' @ param_getName param @ ''_data {'' @ NL
       @ ''    const '' @ cpp_args @ '' *func;'' @ NL
       @ (if \<not> noexceptions g then ''    std::exception_ptr eptr;'' @ NL else [])
       @ ''  } '' @ param_getName param @ ''_data = { &'' @ param_getName param @ '' };'' @ NL
       @ ''  auto '' @ param_getName param @ ''_lambda = []('' @ c_args @ '') -> ''
       @ getAsString rtype @ '' {'' @ NL
       @ ''    auto *data = static_cast<struct '' @ param_getName param @ ''_data *>(arg_''
       @ to_string (int (length args) - 1) @ '');'' @ NL
       @ print_wrapped_call g (callback_call takes (length args)) rtype
       @ ''  };'' @ NL"
proof (cases "getAs_FunctionProtoType (param_getType param)")
  case NoProto
  with assms have False
    by (simp add: print_callback_local_def generate_callback_args_def)
  then show ?thesis ..
next
  case (FunctionProtoType rtype args takes)
  from assms obtain c_args cpp_args where
    "generate_callback_args g (param_getType param) False = Inr c_args"
    "generate_callback_type g (FunctionProtoType rtype args takes) = Inr cpp_args"
    "Inr (''  struct '' @ param_getName param @ ''_data {'' @ NL
       @ ''    const '' @ cpp_args @ '' *func;'' @ NL
       @ (if \<not> noexceptions g then ''    std::exception_ptr eptr;'' @ NL else [])
       @ ''  } '' @ param_getName param @ ''_data = { &'' @ param_getName param @ '' };'' @ NL
       @ ''  auto '' @ param_getName param @ ''_lambda = []('' @ c_args @ '') -> ''
       @ getAsString rtype @ '' {'' @ NL
       @ ''    auto *data = static_cast<struct '' @ param_getName param @ ''_data *>(arg_''
       @ to_string (int (length args) - 1) @ '');'' @ NL
       @ print_wrapped_call g (callback_call takes (length args)) rtype
       @ ''  };'' @ NL) = (Inr t :: error + string)"
    unfolding print_callback_local_def Let_def bindE_Inr_iff FunctionProtoType
      FunctionProtoType.case
    by blast
  then show ?thesis
    using that [OF FunctionProtoType] unfolding sum.inject FunctionProtoType by blast
qed

lemma print_callback_local_guarded:
  assumes "print_callback_local g param = Inr t" "\<not> noexceptions g"
  shows "guarded_trampoline g param t"
proof -
  from assms(1) obtain c_args cpp_args rtype args takes where
    proto: "getAs_FunctionProtoType (param_getType param) = FunctionProtoType rtype args takes"
    and c_args: "generate_callback_args g (param_getType param) False = Inr c_args"
    and cpp_args: "generate_callback_type g (getAs_FunctionProtoType (param_getType param)) = Inr cpp_args"
    and t: "t = ''  struct '' @ param_getName param @ ''_data {'' @ NL
            @ ''    const '' @ cpp_args @ '' *func;'' @ NL
            @ (if \<not> noexceptions g then ''    std::exception_ptr eptr;'' @ NL else [])
            @ ''  } '' @ param_getName param @ ''_data = { &'' @ param_getName param @ '' };'' @ NL
            @ ''  auto '' @ param_getName param @ ''_lambda = []('' @ c_args @ '') -> ''
            @ getAsString rtype @ '' {'' @ NL
            @ ''    auto *data = static_cast<struct '' @ param_getName param @ ''_data *>(arg_''
            @ to_string (int (length args) - 1) @ '');'' @ NL
            @ print_wrapped_call g (callback_call takes (length args)) rtype
            @ ''  };'' @ NL"
    by (rule print_callback_local_Inr)
  have "t = trampoline_head param True cpp_args c_args
          @ guarded_body (getAs_FunctionProtoType (param_getType param))
          @ ''  };'' @ NL"
    unfolding t callback_call_closure_invocation [of takes args rtype]
    by (simp add: trampoline_head_def guarded_body_def proto assms(2) print_wrapped_call_def
        sentinel_def Let_def)
  with c_args cpp_args show ?thesis
    unfolding guarded_trampoline_def by blast
qed

lemma print_callback_local_unguarded:
  assumes "print_callback_local g param = Inr t" "noexceptions g"
  shows "unguarded_trampoline g param t"
proof -
  from assms(1) obtain c_args cpp_args rtype args takes where
    proto: "getAs_FunctionProtoType (param_getType param) = FunctionProtoType rtype args takes"
    and c_args: "generate_callback_args g (param_getType param) False = Inr c_args"
    and cpp_args: "generate_callback_type g (getAs_FunctionProtoType (param_getType param)) = Inr cpp_args"
    and t: "t = ''  struct '' @ param_getName param @ ''_data {'' @ NL
            @ ''    const '' @ cpp_args @ '' *func;'' @ NL
            @ (if \<not> noexceptions g then ''    std::exception_ptr eptr;'' @ NL else [])
            @ ''  } '' @ param_getName param @ ''_data = { &'' @ param_getName param @ '' };'' @ NL
            @ ''  auto '' @ param_getName param @ ''_lambda = []('' @ c_args @ '') -> ''
            @ getAsString rtype @ '' {'' @ NL
            @ ''    auto *data = static_cast<struct '' @ param_getName param @ ''_data *>(arg_''
            @ to_string (int (length args) - 1) @ '');'' @ NL
            @ print_wrapped_call g (callback_call takes (length args)) rtype
            @ ''  };'' @ NL"
    by (rule print_callback_local_Inr)
  have "t = trampoline_head param False cpp_args c_args
          @ unguarded_body (getAs_FunctionProtoType (param_getType param))
          @ ''  };'' @ NL"
    unfolding t callback_call_closure_invocation [of takes args rtype]
    by (simp add: trampoline_head_def unguarded_body_def proto assms(2) print_wrapped_call_def
        print_wrapped_call_noexceptions_def Let_def)
  with c_args cpp_args show ?thesis
    unfolding unguarded_trampoline_def by blast
qed



lemma exposed_mono:
  assumes "exposed ps j" "i \<le> j"
  shows "exposed ps i"
proof -
  have "take i ps = take i (take j ps)"
    using assms(2) by (simp add: min_def)
  then have "length (filter (\<lambda>p. is_callback (param_getType p)) (take i ps))
      \<le> length (filter (\<lambda>p. is_callback (param_getType p)) (take j ps))"
    by (metis append_take_drop_id filter_append length_append le_add1)
  with assms show ?thesis
    unfolding exposed_def by linarith
qed

lemma callback_locals_exposed:
  "callback_locals g ps i n = Inr r \<Longrightarrow> 0 \<le> i \<Longrightarrow>
   n = int (length ps) - int (length (filter (\<lambda>p. is_callback (param_getType p)) (take (nat i) ps))) \<Longrightarrow>
   \<exists>ts. fst r = concat ts
     \<and> list_all2 (\<lambda>j t. print_callback_local g (ps ! j) = Inr t)
         (filter (\<lambda>j. exposed ps j \<and> is_callback (param_getType (ps ! j))) [nat i ..< length ps]) ts
     \<and> fst (snd r)
         = (filter (\<lambda>j. exposed ps j \<and> is_callback (param_getType (ps ! j))) [nat i ..< length ps] \<noteq> [])
     \<and> snd (snd r)
         = n - int (length (filter (\<lambda>j. exposed ps j \<and> is_callback (param_getType (ps ! j)))
             [nat i ..< length ps]))"
proof (induction g ps i n arbitrary: r rule: callback_locals.induct)
  case (1 g ps i n)
  let ?cb = "\<lambda>p. is_callback (param_getType p)"
  let ?sel = "\<lambda>j. exposed ps j \<and> ?cb (ps ! j)"
  have exp: "exposed ps (nat i) \<longleftrightarrow> i < n"
    using "1.prems"(2,3) unfolding exposed_def by linarith
  show ?case
  proof (cases "i < n")
    case False
    with "1.prems" have "fst r = concat []" "\<not> fst (snd r)" "snd (snd r) = n"
      by (subst (asm) callback_locals.simps; auto)+
    moreover have "\<not> exposed ps j" if "nat i \<le> j" for j
      using exposed_mono [OF _ that] exp False by blast
    then have "filter ?sel [nat i ..< length ps] = []"
      by (auto simp: filter_empty_conv)
    ultimately show ?thesis by simp
  next
    case True
    define param where "param = ps ! nat i"
    have lt: "nat i < length ps"
      using True "1.prems"(2,3) by linarith
    have upt: "[nat i ..< length ps] = nat i # [nat (i + 1) ..< length ps]"
      using lt "1.prems"(2) by (simp add: upt_conv_Cons nat_add_distrib)
    have take: "take (nat (i + 1)) ps = take (nat i) ps @ [param]"
      using lt "1.prems"(2) by (simp add: nat_add_distrib take_Suc_conv_app_nth param_def)
    show ?thesis
    proof (cases "?cb param")
      case cb: True
      from "1.prems"(1) True cb obtain t r' where
        t: "print_callback_local g param = Inr t"
        and r': "callback_locals g ps (i + 1) (n - 1) = Inr r'"
        and r: "r = (t @ fst r', True, snd (snd r'))"
        by (subst (asm) callback_locals.simps) (auto simp: param_def bindE_Inr_iff)
      have inv: "n - 1 = int (length ps) - int (length (filter ?cb (take (nat (i + 1)) ps)))"
        using "1.prems"(3) cb by (simp add: take)
      have "0 \<le> i + 1" using "1.prems"(2) by simp
      from "1.IH"(1) [OF True param_def cb t r' this inv] obtain ts where
        "fst r' = concat ts"
        "list_all2 (\<lambda>j t. print_callback_local g (ps ! j) = Inr t)
           (filter ?sel [nat (i + 1) ..< length ps]) ts"
        "snd (snd r') = n - 1 - int (length (filter ?sel [nat (i + 1) ..< length ps]))"
        by blast
      then have "fst r = concat (t # ts)
        \<and> list_all2 (\<lambda>j t. print_callback_local g (ps ! j) = Inr t)
           (filter ?sel [nat i ..< length ps]) (t # ts)
        \<and> fst (snd r) = (filter ?sel [nat i ..< length ps] \<noteq> [])
        \<and> snd (snd r) = n - int (length (filter ?sel [nat i ..< length ps]))"
        using r t cb exp True by (simp add: upt param_def)
      then show ?thesis by blast
    next
      case nocb: False
      from "1.prems"(1) True nocb have r': "callback_locals g ps (i + 1) n = Inr r"
        by (subst (asm) callback_locals.simps) (auto simp: param_def)
      have inv: "n = int (length ps) - int (length (filter ?cb (take (nat (i + 1)) ps)))"
        using "1.prems"(3) nocb by (simp add: take)
      have "0 \<le> i + 1" using "1.prems"(2) by simp
      from "1.IH"(2) [OF True param_def nocb r' this inv] obtain ts where
        "fst r = concat ts"
        "list_all2 (\<lambda>j t. print_callback_local g (ps ! j) = Inr t)
           (filter ?sel [nat (i + 1) ..< length ps]) ts"
        "fst (snd r) = (filter ?sel [nat (i + 1) ..< length ps] \<noteq> [])"
        "snd (snd r) = n - int (length (filter ?sel [nat (i + 1) ..< length ps]))"
        by blast
      then have "fst r = concat ts
        \<and> list_all2 (\<lambda>j t. print_callback_local g (ps ! j) = Inr t)
           (filter ?sel [nat i ..< length ps]) ts
        \<and> fst (snd r) = (filter ?sel [nat i ..< length ps] \<noteq> [])
        \<and> snd (snd r) = n - int (length (filter ?sel [nat i ..< length ps]))"
        using nocb by (simp add: upt param_def)
      then show ?thesis by blast
    qed
  qed
qed

lemma callback_locals_exposed_callbacks:
  assumes "callback_locals g ps 0 (int (length ps)) = Inr r"
  shows "\<exists>ts. fst r = concat ts
     \<and> list_all2 (\<lambda>p t. print_callback_local g p = Inr t) (exposed_callbacks ps) ts
     \<and> fst (snd r) = (exposed_callbacks ps \<noteq> [])
     \<and> snd (snd r) = int (length ps) - int (length (exposed_callbacks ps))"
  using callback_locals_exposed [OF assms]
  by (simp add: exposed_callbacks_def list_all2_map1)

text \<open>
  C2.  The body of a method that is printed is, in this order: the header and the opening
  brace, the check of the arguments, the saved context, the error setting, one trampoline for
  every exposed callback parameter, the call of the C function on the exposed parameters, what
  \<^verbatim>\<open>print_exceptional_execution_check\<close> prints, the return statement and the closing
  brace.  When exceptions are generated every trampoline is guarded: its lambda invokes the
  closure inside one \<^verbatim>\<open>try\<close> block whose handler stores \<^verbatim>\<open>std::current_exception()\<close>
  in the slot \<^verbatim>\<open>eptr\<close> of the data record and returns \<^verbatim>\<open>isl_stat_error\<close>,
  \<^verbatim>\<open>isl_bool_error\<close> or \<^verbatim>\<open>NULL\<close> by the return type of the callback.  When no
  exceptions are generated every trampoline is unguarded and
  \<^verbatim>\<open>print_exceptional_execution_check\<close> prints nothing, so that the call is followed at
  once by the return statement.
\<close>

theorem callback_exception_protocol:
  assumes "print_method_impl g k clazz fullname fd kind cls = Some (Inr (out, cls'))"
  shows "\<exists>header save_ctx on_error ts check ret rendered narrowed.
      print_method_header g k clazz fd fullname False kind cls = Some (Inr (header, cls'))
    \<and> print_save_ctx g fd kind = Inr save_ctx
    \<and> print_on_error_continue g fd kind = Inr on_error
    \<and> list_all2 (\<lambda>p t. if noexceptions g then unguarded_trampoline g p t
          else guarded_trampoline g p t) (exposed_callbacks (params fd)) ts
    \<and> print_exceptional_execution_check g fd kind = Inr check
    \<and> (noexceptions g \<longrightarrow> check = [])
    \<and> type2cpp g (getReturnType fd) = Inr rendered
    \<and> super2sub clazz rendered = Inr narrowed
    \<and> print_return g fd kind (exposed_callbacks (params fd) \<noteq> []) (fst narrowed) (snd narrowed)
        = Inr ret
    \<and> out = header @ ''{'' @ NL
        @ print_argument_validity_check g fd kind @ save_ctx @ on_error
        @ concat ts
        @ ''  auto res = '' @ getName fd @ ''(''
        @ call_arguments g kind (params fd)
            (int (length (params fd)) - int (length (exposed_callbacks (params fd))))
        @ '');'' @ NL
        @ check @ ret @ ''}'' @ NL"
proof -
  from assms obtain rendered narrowed header save_ctx on_error locals check ret where
    rendered: "type2cpp g (getReturnType fd) = Inr rendered"
    and narrowed: "super2sub clazz rendered = Inr narrowed"
    and header: "print_method_header g k clazz fd fullname False kind cls = Some (Inr (header, cls'))"
    and save_ctx: "print_save_ctx g fd kind = Inr save_ctx"
    and on_error: "print_on_error_continue g fd kind = Inr on_error"
    and locals: "callback_locals g (params fd) 0 (int (length (params fd))) = Inr locals"
    and check: "print_exceptional_execution_check g fd kind = Inr check"
    and ret: "print_return g fd kind (fst (snd locals)) (fst narrowed) (snd narrowed) = Inr ret"
    and out: "out = header @ ''{'' @ NL @ print_argument_validity_check g fd kind @ save_ctx @ on_error
       @ fst locals @ ''  auto res = '' @ getName fd @ ''(''
       @ call_arguments g kind (params fd) (snd (snd locals)) @ '');'' @ NL @ check @ ret
       @ ''}'' @ NL"
    by (elim print_method_impl_Inr)
  from callback_locals_exposed_callbacks [OF locals] obtain ts where
    ts: "fst locals = concat ts"
    and each: "list_all2 (\<lambda>p t. print_callback_local g p = Inr t) (exposed_callbacks (params fd)) ts"
    and has: "fst (snd locals) = (exposed_callbacks (params fd) \<noteq> [])"
    and num: "snd (snd locals)
      = int (length (params fd)) - int (length (exposed_callbacks (params fd)))"
    by blast
  have each': "list_all2 (\<lambda>p t. if noexceptions g then unguarded_trampoline g p t
      else guarded_trampoline g p t) (exposed_callbacks (params fd)) ts"
    using each
    by (rule list_all2_mono)
      (auto intro: print_callback_local_guarded print_callback_local_unguarded)
  have nx: "noexceptions g \<longrightarrow> check = []"
    using check by (auto simp: print_exceptional_execution_check_def)
  from header save_ctx on_error each' check nx rendered narrowed ret [unfolded has]
    out [unfolded ts num]
  show ?thesis by blast
qed

theorem callback_exception_protocol_witness:
  "(\<exists>pre args check ret cls'.
      print_method_impl (ex_gen False) ''isl_set'' ex_set ''foreach_basic_set'' ex_foreach
        function_kind_member_method ex_classes
      = Some (Inr (pre
          @ ''  struct fn_data {'' @ NL
          @ ''    const std::function<void(isl::basic_set)> *func;'' @ NL
          @ ''    std::exception_ptr eptr;'' @ NL
          @ ''  } fn_data = { &fn };'' @ NL
          @ ''  auto fn_lambda = [](isl_basic_set *arg_0, void *arg_1) -> isl_stat {'' @ NL
          @ ''    auto *data = static_cast<struct fn_data *>(arg_1);'' @ NL
          @ ''    try {'' @ NL
          @ ''      (*data->func)(isl::manage(arg_0));'' @ NL
          @ ''      return isl_stat_ok;'' @ NL
          @ ''    } catch (...) {'' @ NL
          @ ''      data->eptr = std::current_exception();'' @ NL
          @ ''      return isl_stat_error;'' @ NL
          @ ''    }'' @ NL
          @ ''  };'' @ NL
          @ ''  auto res = isl_set_foreach_basic_set('' @ args @ '');'' @ NL
          @ check @ ret @ ''}'' @ NL, cls')))
   \<and> (\<exists>pre args cls'.
      print_method_impl (ex_gen True) ''isl_set'' ex_set ''foreach_basic_set'' ex_foreach
        function_kind_member_method ex_classes
      = Some (Inr (pre
          @ ''  struct fn_data {'' @ NL
          @ ''    const std::function<isl::stat(isl::basic_set)> *func;'' @ NL
          @ ''  } fn_data = { &fn };'' @ NL
          @ ''  auto fn_lambda = [](isl_basic_set *arg_0, void *arg_1) -> isl_stat {'' @ NL
          @ ''    auto *data = static_cast<struct fn_data *>(arg_1);'' @ NL
          @ ''    auto ret = (*data->func)(isl::manage(arg_0));'' @ NL
          @ ''    return isl_stat(ret);'' @ NL
          @ ''  };'' @ NL
          @ ''  auto res = isl_set_foreach_basic_set('' @ args @ '');'' @ NL
          @ ''  return isl::stat(res);'' @ NL
          @ ''}'' @ NL, cls')))"
proof -
  let ?fn = "ex_param ''fn'' ex_callback False"
  have nm: "getName ex_foreach = ''isl_set_foreach_basic_set''"
    by (simp add: ex_foreach_def)
  have g: "\<not> noexceptions (ex_gen False)" "noexceptions (ex_gen True)"
    by (simp_all add: ex_gen_def)
  have cbs: "exposed_callbacks (params ex_foreach) = [?fn]"
    by code_simp
  have guarded: "t = ''  struct fn_data {'' @ NL
          @ ''    const std::function<void(isl::basic_set)> *func;'' @ NL
          @ ''    std::exception_ptr eptr;'' @ NL
          @ ''  } fn_data = { &fn };'' @ NL
          @ ''  auto fn_lambda = [](isl_basic_set *arg_0, void *arg_1) -> isl_stat {'' @ NL
          @ ''    auto *data = static_cast<struct fn_data *>(arg_1);'' @ NL
          @ ''    try {'' @ NL
          @ ''      (*data->func)(isl::manage(arg_0));'' @ NL
          @ ''      return isl_stat_ok;'' @ NL
          @ ''    } catch (...) {'' @ NL
          @ ''      data->eptr = std::current_exception();'' @ NL
          @ ''      return isl_stat_error;'' @ NL
          @ ''    }'' @ NL
          @ ''  };'' @ NL" if "guarded_trampoline (ex_gen False) ?fn t" for t
  proof -
    have ty: "generate_callback_type (ex_gen False) (getAs_FunctionProtoType (param_getType ?fn))
        = Inr ''std::function<void(isl::basic_set)>''"
      by code_simp
    have ar: "generate_callback_args (ex_gen False) (param_getType ?fn) False
        = Inr ''isl_basic_set *arg_0, void *arg_1''"
      by code_simp
    have shape: "trampoline_head ?fn True ''std::function<void(isl::basic_set)>''
          ''isl_basic_set *arg_0, void *arg_1''
        @ guarded_body (getAs_FunctionProtoType (param_getType ?fn)) @ ''  };'' @ NL
      = ''  struct fn_data {'' @ NL
          @ ''    const std::function<void(isl::basic_set)> *func;'' @ NL
          @ ''    std::exception_ptr eptr;'' @ NL
          @ ''  } fn_data = { &fn };'' @ NL
          @ ''  auto fn_lambda = [](isl_basic_set *arg_0, void *arg_1) -> isl_stat {'' @ NL
          @ ''    auto *data = static_cast<struct fn_data *>(arg_1);'' @ NL
          @ ''    try {'' @ NL
          @ ''      (*data->func)(isl::manage(arg_0));'' @ NL
          @ ''      return isl_stat_ok;'' @ NL
          @ ''    } catch (...) {'' @ NL
          @ ''      data->eptr = std::current_exception();'' @ NL
          @ ''      return isl_stat_error;'' @ NL
          @ ''    }'' @ NL
          @ ''  };'' @ NL"
      by code_simp
    from that show ?thesis
      unfolding guarded_trampoline_def ty ar sum.inject shape [symmetric] by blast
  qed
  have unguarded: "t = ''  struct fn_data {'' @ NL
          @ ''    const std::function<isl::stat(isl::basic_set)> *func;'' @ NL
          @ ''  } fn_data = { &fn };'' @ NL
          @ ''  auto fn_lambda = [](isl_basic_set *arg_0, void *arg_1) -> isl_stat {'' @ NL
          @ ''    auto *data = static_cast<struct fn_data *>(arg_1);'' @ NL
          @ ''    auto ret = (*data->func)(isl::manage(arg_0));'' @ NL
          @ ''    return isl_stat(ret);'' @ NL
          @ ''  };'' @ NL" if "unguarded_trampoline (ex_gen True) ?fn t" for t
  proof -
    have ty: "generate_callback_type (ex_gen True) (getAs_FunctionProtoType (param_getType ?fn))
        = Inr ''std::function<isl::stat(isl::basic_set)>''"
      by code_simp
    have ar: "generate_callback_args (ex_gen True) (param_getType ?fn) False
        = Inr ''isl_basic_set *arg_0, void *arg_1''"
      by code_simp
    have shape: "trampoline_head ?fn False ''std::function<isl::stat(isl::basic_set)>''
          ''isl_basic_set *arg_0, void *arg_1''
        @ unguarded_body (getAs_FunctionProtoType (param_getType ?fn)) @ ''  };'' @ NL
      = ''  struct fn_data {'' @ NL
          @ ''    const std::function<isl::stat(isl::basic_set)> *func;'' @ NL
          @ ''  } fn_data = { &fn };'' @ NL
          @ ''  auto fn_lambda = [](isl_basic_set *arg_0, void *arg_1) -> isl_stat {'' @ NL
          @ ''    auto *data = static_cast<struct fn_data *>(arg_1);'' @ NL
          @ ''    auto ret = (*data->func)(isl::manage(arg_0));'' @ NL
          @ ''    return isl_stat(ret);'' @ NL
          @ ''  };'' @ NL"
      by code_simp
    from that show ?thesis
      unfolding unguarded_trampoline_def ty ar sum.inject shape [symmetric] by blast
  qed
  have ret2: "ret = ''  return isl::stat(res);'' @ NL"
    if "type2cpp (ex_gen True) (getReturnType ex_foreach) = Inr rendered"
      "super2sub ex_set rendered = Inr narrowed"
      "print_return (ex_gen True) ex_foreach function_kind_member_method
         (exposed_callbacks (params ex_foreach) \<noteq> []) (fst narrowed) (snd narrowed) = Inr ret"
    for rendered narrowed ret
  proof -
    have "type2cpp (ex_gen True) (getReturnType ex_foreach) = Inr ''isl::stat''"
      by code_simp
    with that(1) have rendered: "rendered = ''isl::stat''" by simp
    have "super2sub ex_set ''isl::stat'' = Inr (False, ''isl::stat'')"
      by code_simp
    with that(2) have narrowed: "narrowed = (False, ''isl::stat'')"
      by (simp add: rendered)
    have "print_return (ex_gen True) ex_foreach function_kind_member_method
         (exposed_callbacks (params ex_foreach) \<noteq> []) False ''isl::stat''
       = Inr (''  return isl::stat(res);'' @ NL)"
      by code_simp
    with that(3) show ?thesis
      by (simp add: narrowed)
  qed
  have "succeeded (print_method_impl (ex_gen False) ''isl_set'' ex_set ''foreach_basic_set''
      ex_foreach function_kind_member_method ex_classes)"
    by code_simp
  then obtain out1 c1 where run1:
    "print_method_impl (ex_gen False) ''isl_set'' ex_set ''foreach_basic_set'' ex_foreach
        function_kind_member_method ex_classes = Some (Inr (out1, c1))"
    by (elim succeededE) auto
  have "succeeded (print_method_impl (ex_gen True) ''isl_set'' ex_set ''foreach_basic_set''
      ex_foreach function_kind_member_method ex_classes)"
    by code_simp
  then obtain out2 c2 where run2:
    "print_method_impl (ex_gen True) ''isl_set'' ex_set ''foreach_basic_set'' ex_foreach
        function_kind_member_method ex_classes = Some (Inr (out2, c2))"
    by (elim succeededE) auto
  from callback_exception_protocol [OF run1] obtain header1 save1 on_error1 ts1 check1 ret1 where
    out1: "out1 = header1 @ ''{'' @ NL
        @ print_argument_validity_check (ex_gen False) ex_foreach function_kind_member_method
        @ save1 @ on_error1
        @ concat ts1 @ ''  auto res = '' @ getName ex_foreach @ ''(''
        @ call_arguments (ex_gen False) function_kind_member_method (params ex_foreach)
            (int (length (params ex_foreach)) - int (length [?fn]))
        @ '');'' @ NL
        @ check1 @ ret1 @ ''}'' @ NL"
    and each1: "list_all2 (guarded_trampoline (ex_gen False)) [?fn] ts1"
    unfolding if_not_P [OF g(1)] cbs by blast
  define pre1 where "pre1 = header1 @ ''{'' @ NL
        @ print_argument_validity_check (ex_gen False) ex_foreach function_kind_member_method
        @ save1 @ on_error1"
  define args1 where "args1
    = call_arguments (ex_gen False) function_kind_member_method (params ex_foreach)
            (int (length (params ex_foreach)) - int (length [?fn]))"
  from each1 obtain t1 where ts1: "ts1 = [t1]" and t1: "guarded_trampoline (ex_gen False) ?fn t1"
    by (auto simp: list_all2_Cons1)
  have first: "print_method_impl (ex_gen False) ''isl_set'' ex_set ''foreach_basic_set'' ex_foreach
        function_kind_member_method ex_classes
      = Some (Inr (pre1 @ t1 @ ''  auto res = isl_set_foreach_basic_set('' @ args1 @ '');'' @ NL
          @ check1 @ ret1 @ ''}'' @ NL, c1))"
    unfolding run1 out1 ts1 nm pre1_def args1_def by simp
  from callback_exception_protocol [OF run2]
  obtain header2 save2 on_error2 ts2 check2 ret2 rendered narrowed where
    out2: "out2 = header2 @ ''{'' @ NL
        @ print_argument_validity_check (ex_gen True) ex_foreach function_kind_member_method
        @ save2 @ on_error2
        @ concat ts2 @ ''  auto res = '' @ getName ex_foreach @ ''(''
        @ call_arguments (ex_gen True) function_kind_member_method (params ex_foreach)
            (int (length (params ex_foreach)) - int (length (exposed_callbacks (params ex_foreach))))
        @ '');'' @ NL
        @ check2 @ ret2 @ ''}'' @ NL"
    and each2: "list_all2 (unguarded_trampoline (ex_gen True)) [?fn] ts2"
    and ret: "type2cpp (ex_gen True) (getReturnType ex_foreach) = Inr rendered"
      "super2sub ex_set rendered = Inr narrowed"
      "print_return (ex_gen True) ex_foreach function_kind_member_method
         (exposed_callbacks (params ex_foreach) \<noteq> []) (fst narrowed) (snd narrowed) = Inr ret2"
    and check2: "check2 = []"
    unfolding if_P [OF g(2)] using g(2) unfolding cbs [symmetric] by blast
  from each2 obtain t2 where ts2: "ts2 = [t2]" and t2: "unguarded_trampoline (ex_gen True) ?fn t2"
    by (auto simp: list_all2_Cons1)
  define pre2 where "pre2 = header2 @ ''{'' @ NL
        @ print_argument_validity_check (ex_gen True) ex_foreach function_kind_member_method
        @ save2 @ on_error2"
  define args2 where "args2
    = call_arguments (ex_gen True) function_kind_member_method (params ex_foreach)
        (int (length (params ex_foreach)) - int (length (exposed_callbacks (params ex_foreach))))"
  have second: "print_method_impl (ex_gen True) ''isl_set'' ex_set ''foreach_basic_set'' ex_foreach
        function_kind_member_method ex_classes
      = Some (Inr (pre2 @ t2 @ ''  auto res = isl_set_foreach_basic_set('' @ args2 @ '');'' @ NL
          @ ''  return isl::stat(res);'' @ NL @ ''}'' @ NL, c2))"
    unfolding run2 out2 ts2 nm check2 ret2 [OF ret] pre2_def args2_def by simp
  show ?thesis
    using first [unfolded guarded [OF t1] append_assoc]
      second [unfolded unguarded [OF t2] append_assoc]
    by (intro conjI) (blast, blast)
qed

text \<open>
  A callback parameter that follows another callback is hidden as its user pointer.  The
  third parameter of this function is a callback, yet the loop of \<^verbatim>\<open>print_method_impl\<close>
  over the parameters prints the trampoline of the second parameter only, and the method is
  printed.
\<close>

theorem adjacent_callback_has_no_trampoline:
  "is_callback (param_getType (params ex_pair ! 2))
   \<and> param_getName (params ex_pair ! 2) = ''f2''
   \<and> callback_locals (ex_gen False) (params ex_pair) 0 (int (length (params ex_pair)))
     = Inr (''  struct f1_data {'' @ NL
          @ ''    const std::function<void(isl::basic_set)> *func;'' @ NL
          @ ''    std::exception_ptr eptr;'' @ NL
          @ ''  } f1_data = { &f1 };'' @ NL
          @ ''  auto f1_lambda = [](isl_basic_set *arg_0, void *arg_1) -> isl_stat {'' @ NL
          @ ''    auto *data = static_cast<struct f1_data *>(arg_1);'' @ NL
          @ ''    try {'' @ NL
          @ ''      (*data->func)(isl::manage(arg_0));'' @ NL
          @ ''      return isl_stat_ok;'' @ NL
          @ ''    } catch (...) {'' @ NL
          @ ''      data->eptr = std::current_exception();'' @ NL
          @ ''      return isl_stat_error;'' @ NL
          @ ''    }'' @ NL
          @ ''  };'' @ NL, True, 2)
   \<and> succeeded (print_method_impl (ex_gen False) ''isl_set'' ex_set ''pair'' ex_pair
        function_kind_member_method ex_classes)"
  by code_simp


section \<open>Return types\<close>

lemma super2sub_Inr:
  assumes "super2sub clazz rendered = Inr n"
  shows "fst n = narrows clazz rendered" and "snd n = narrowed_return_type clazz rendered"
  using assms
  by (auto simp: super2sub_def narrows_def narrowed_return_type_def parent_wrapper_def
      own_wrapper_def type2cpp_class_def type2cpp_str_def bindE_Inr_iff split: if_splits)

lemma print_method_header_Inr:
  assumes "print_method_header g k clazz fd fullname is_declaration kind cls = Some (Inr (h, cls'))"
  obtains rettype_str classname marker narrowed ps where
    "type2cpp g (getReturnType fd) = Inr rettype_str"
    "type2cpp_class clazz = Inr classname"
    "super2sub clazz rettype_str = Inr narrowed"
    "h = (if is_declaration
         then ''  '' @ (if kind = function_kind_static_method then ''static '' else [])
           @ ''inline '' @ marker
         else [])
        @ (if kind \<noteq> function_kind_constructor then snd narrowed @ '' '' else [])
        @ (if \<not> is_declaration then classname @ ''::'' else [])
        @ (if kind \<noteq> function_kind_constructor then rename_method (method_name g clazz fd) else classname)
        @ ''('' @ ps @ '')''
        @ (if kind = function_kind_member_method then '' const'' else [])
        @ (if is_declaration then '';'' else [])
        @ NL"
    "\<not> (is_declaration \<and> kind = function_kind_constructor) \<Longrightarrow> marker = [] \<and> cls' = cls"
proof -
  from assms obtain rettype_str classname marker c1 narrowed ps where
    "type2cpp g (getReturnType fd) = Inr rettype_str"
    "type2cpp_class clazz = Inr classname"
    "(if is_declaration \<and> kind = function_kind_constructor
             then bindG (is_implicit_conversion g k fd) (\<lambda>implicit.
                    liftE (Inr (if implicit then ''/* implicit */ '' else ''explicit '')))
             else liftE (Inr [])) cls = Some (Inr (marker, c1))"
    "super2sub clazz rettype_str = Inr narrowed"
    "Inr ((if is_declaration
         then ''  '' @ (if kind = function_kind_static_method then ''static '' else [])
           @ ''inline '' @ marker
         else [])
        @ (if kind \<noteq> function_kind_constructor then snd narrowed @ '' '' else [])
        @ (if \<not> is_declaration then classname @ ''::'' else [])
        @ (if kind \<noteq> function_kind_constructor then rename_method (method_name g clazz fd) else classname)
        @ ''('' @ ps @ '')''
        @ (if kind = function_kind_member_method then '' const'' else [])
        @ (if is_declaration then '';'' else [])
        @ NL) = (Inr h :: error + string)" "cls' = c1"
    unfolding print_method_header_def Let_def bindG_Inr_iff liftE_Inr_iff
    by blast
  moreover from this(3) have
    "\<not> (is_declaration \<and> kind = function_kind_constructor) \<Longrightarrow> marker = [] \<and> c1 = cls"
    by (auto simp: liftE_Inr_iff)
  ultimately show ?thesis
    using that unfolding sum.inject by blast
qed


lemma print_return_isl_type:
  assumes "kind \<noteq> function_kind_constructor" "is_isl_type (getReturnType fd)"
  shows "print_return g fd kind has_callback returns_super rettype_str =
    Inr ((if returns_super then ''  return manage(res).as<'' @ rettype_str @ ''>();''
          else ''  return manage(res);'') @ NL)"
  using assms by (simp add: print_return_def)

text \<open>
  C3.  For a static or member method whose declaration and definition are printed, both
  headers carry the narrowed return type: the wrapper type of the subclass when the class is
  a type subclass and the return type renders as the wrapper type of its superclass, and the
  rendered type unchanged otherwise.  When the function returns an isl object the body ends by
  returning \<^verbatim>\<open>manage(res)\<close>, cast with \<^verbatim>\<open>as\<close> to the subclass's wrapper type exactly when
  the type was narrowed.
\<close>

theorem covariant_return_narrowing:
  assumes decl: "print_method_decl g k clazz fullname fd kind cls = Some (Inr (d, cls1))"
    and impl: "print_method_impl g k clazz fullname fd kind cls = Some (Inr (out, cls2))"
    and kind: "kind \<noteq> function_kind_constructor"
  shows "\<exists>rendered drest orest.
      type2cpp g (getReturnType fd) = Inr rendered
    \<and> d = ''  '' @ (if kind = function_kind_static_method then ''static '' else []) @ ''inline ''
        @ narrowed_return_type clazz rendered @ '' '' @ drest
    \<and> out = narrowed_return_type clazz rendered @ '' '' @ orest
    \<and> (is_isl_type (getReturnType fd) \<longrightarrow>
        suffix ((if narrows clazz rendered
                 then ''  return manage(res).as<'' @ own_wrapper clazz @ ''>();''
                 else ''  return manage(res);'') @ NL @ ''}'' @ NL) out)
    \<and> (\<not> narrows clazz rendered \<longrightarrow> narrowed_return_type clazz rendered = rendered)"
proof -
  from impl obtain rendered narrowed header save_ctx on_error locals check ret where
    rendered: "type2cpp g (getReturnType fd) = Inr rendered"
    and narrowed: "super2sub clazz rendered = Inr narrowed"
    and header: "print_method_header g k clazz fd fullname False kind cls = Some (Inr (header, cls2))"
    and ret: "print_return g fd kind (fst (snd locals)) (fst narrowed) (snd narrowed) = Inr ret"
    and out0: "out = header @ ''{'' @ NL @ print_argument_validity_check g fd kind @ save_ctx @ on_error
       @ fst locals @ ''  auto res = '' @ getName fd @ ''(''
       @ call_arguments g kind (params fd) (snd (snd locals)) @ '');'' @ NL @ check @ ret
       @ ''}'' @ NL"
    by (elim print_method_impl_Inr)
  define pre0 where "pre0 = ''{'' @ NL @ print_argument_validity_check g fd kind @ save_ctx @ on_error
       @ fst locals @ ''  auto res = '' @ getName fd @ ''(''
       @ call_arguments g kind (params fd) (snd (snd locals)) @ '');'' @ NL"
  have out: "out = header @ pre0 @ check @ ret @ ''}'' @ NL"
    unfolding out0 pre0_def by simp
  note n = super2sub_Inr [OF narrowed]
  from header kind rendered narrowed obtain hrest where
    h: "header = snd narrowed @ '' '' @ hrest"
    by (elim print_method_header_Inr) simp
  from decl kind rendered narrowed obtain drest where
    d: "d = ''  '' @ (if kind = function_kind_static_method then ''static '' else []) @ ''inline ''
        @ snd narrowed @ '' '' @ drest"
    unfolding print_method_decl_def by (elim print_method_header_Inr) simp
  have body: "suffix ((if narrows clazz rendered
                 then ''  return manage(res).as<'' @ own_wrapper clazz @ ''>();''
                 else ''  return manage(res);'') @ NL @ ''}'' @ NL) out"
    if "is_isl_type (getReturnType fd)"
  proof -
    from ret have "ret = (if narrows clazz rendered
        then ''  return manage(res).as<'' @ narrowed_return_type clazz rendered @ ''>();''
        else ''  return manage(res);'') @ NL"
      unfolding print_return_isl_type [OF kind that] n by simp
    then have "out = (header @ pre0 @ check) @ (if narrows clazz rendered
                 then ''  return manage(res).as<'' @ own_wrapper clazz @ ''>();''
                 else ''  return manage(res);'') @ NL @ ''}'' @ NL"
      unfolding out by (simp add: narrowed_return_type_def)
    then show ?thesis
      unfolding suffix_def by blast
  qed
  have "out = narrowed_return_type clazz rendered @ '' '' @ (hrest @ pre0 @ check @ ret @ ''}'' @ NL)"
    unfolding out h n by simp
  moreover have "d = ''  '' @ (if kind = function_kind_static_method then ''static '' else [])
      @ ''inline '' @ narrowed_return_type clazz rendered @ '' '' @ drest"
    unfolding d n ..
  moreover have "\<not> narrows clazz rendered \<longrightarrow> narrowed_return_type clazz rendered = rendered"
    by (simp add: narrowed_return_type_def)
  ultimately show ?thesis
    using rendered body by blast
qed

theorem covariant_return_narrowing_witness:
  "(\<exists>drest cls1. print_method_decl (ex_gen False) ''isl_schedule_node_band'' ex_band ''band_tile'' ex_tile
        function_kind_member_method ex_classes
      = Some (Inr (''  inline isl::schedule_node_band '' @ drest, cls1)))
   \<and> (\<exists>out cls2. print_method_impl (ex_gen False) ''isl_schedule_node_band'' ex_band ''band_tile'' ex_tile
        function_kind_member_method ex_classes = Some (Inr (out, cls2))
      \<and> prefix ''isl::schedule_node_band '' out
      \<and> suffix (''  return manage(res).as<isl::schedule_node_band>();'' @ NL @ ''}'' @ NL) out)
   \<and> (\<exists>out cls2. print_method_impl (ex_gen False) ''isl_set'' ex_set ''intersect'' ex_intersect
        function_kind_member_method ex_classes = Some (Inr (out, cls2))
      \<and> prefix ''isl::set '' out
      \<and> suffix (''  return manage(res);'' @ NL @ ''}'' @ NL) out)"
proof -
  have kind: "function_kind_member_method \<noteq> function_kind_constructor"
    by simp
  have r1: "type2cpp (ex_gen False) (getReturnType ex_tile) = Inr ''isl::schedule_node''"
    by (simp add: ex_tile_def ex_obj_def type2cpp_str_def)
  have n1: "narrows ex_band ''isl::schedule_node''"
    "narrowed_return_type ex_band ''isl::schedule_node'' = ''isl::schedule_node_band''"
    "own_wrapper ex_band = ''isl::schedule_node_band''"
    by (simp_all add: narrowed_return_type_def narrows_def parent_wrapper_def own_wrapper_def ex_band_def)
  have t1: "is_isl_type (getReturnType ex_tile)"
    by (simp add: ex_tile_def ex_obj_def)
  have r2: "type2cpp (ex_gen False) (getReturnType ex_intersect) = Inr ''isl::set''"
    by (simp add: ex_intersect_def ex_obj_def type2cpp_str_def)
  have n2: "\<not> narrows ex_set ''isl::set''" "narrowed_return_type ex_set ''isl::set'' = ''isl::set''"
    by (simp_all add: narrowed_return_type_def narrows_def ex_set_def)
  have t2: "is_isl_type (getReturnType ex_intersect)"
    by (simp add: ex_intersect_def ex_obj_def)
  have "succeeded (print_method_decl (ex_gen False) ''isl_schedule_node_band'' ex_band ''band_tile''
      ex_tile function_kind_member_method ex_classes)"
    by code_simp
  then obtain d1 c1 where decl1:
    "print_method_decl (ex_gen False) ''isl_schedule_node_band'' ex_band ''band_tile'' ex_tile
        function_kind_member_method ex_classes = Some (Inr (d1, c1))"
    by (elim succeededE) auto
  have "succeeded (print_method_impl (ex_gen False) ''isl_schedule_node_band'' ex_band ''band_tile''
      ex_tile function_kind_member_method ex_classes)"
    by code_simp
  then obtain o1 c1' where impl1:
    "print_method_impl (ex_gen False) ''isl_schedule_node_band'' ex_band ''band_tile'' ex_tile
        function_kind_member_method ex_classes = Some (Inr (o1, c1'))"
    by (elim succeededE) auto
  have "succeeded (print_method_decl (ex_gen False) ''isl_set'' ex_set ''intersect''
      ex_intersect function_kind_member_method ex_classes)"
    by code_simp
  then obtain d2 c2 where decl2:
    "print_method_decl (ex_gen False) ''isl_set'' ex_set ''intersect'' ex_intersect
        function_kind_member_method ex_classes = Some (Inr (d2, c2))"
    by (elim succeededE) auto
  have "succeeded (print_method_impl (ex_gen False) ''isl_set'' ex_set ''intersect''
      ex_intersect function_kind_member_method ex_classes)"
    by code_simp
  then obtain o2 c2' where impl2:
    "print_method_impl (ex_gen False) ''isl_set'' ex_set ''intersect'' ex_intersect
        function_kind_member_method ex_classes = Some (Inr (o2, c2'))"
    by (elim succeededE) auto
  from covariant_return_narrowing [OF decl1 impl1 kind] obtain drest1 orest1 where
    "d1 = ''  '' @ [] @ ''inline '' @ ''isl::schedule_node_band'' @ '' '' @ drest1"
    "o1 = ''isl::schedule_node_band'' @ '' '' @ orest1"
    "suffix ((''  return manage(res).as<'' @ ''isl::schedule_node_band'' @ ''>();'') @ NL @ ''}'' @ NL) o1"
    unfolding r1 sum.inject using n1 t1 by (auto simp del: append.simps)
  then have first: "d1 = ''  inline isl::schedule_node_band '' @ drest1"
    "prefix ''isl::schedule_node_band '' o1"
    "suffix (''  return manage(res).as<isl::schedule_node_band>();'' @ NL @ ''}'' @ NL) o1"
    by (simp_all add: prefix_def)
  from covariant_return_narrowing [OF decl2 impl2 kind] obtain orest2 where
    "o2 = ''isl::set'' @ '' '' @ orest2"
    "suffix (''  return manage(res);'' @ NL @ ''}'' @ NL) o2"
    unfolding r2 sum.inject using n2 t2 by (auto simp del: append.simps)
  then have second: "prefix ''isl::set '' o2" "suffix (''  return manage(res);'' @ NL @ ''}'' @ NL) o2"
    by (simp_all add: prefix_def)
  from decl1 impl1 impl2 first second show ?thesis
    by blast
qed


section \<open>Implicit conversion\<close>

lemma map_of_insort_key_fresh:
  "k \<notin> fst ` set cls \<Longrightarrow>
   map_of (insort_key fst (k, d) cls) k' = (if k' = k then Some d else map_of cls k')"
  by (induction cls) auto

lemma class_of_touch [simp]: "class_of (touch cls k) = class_of cls"
proof
  fix k'
  show "class_of (touch cls k) k' = class_of cls k'"
  proof (cases "k \<in> fst ` set cls")
    case True
    then show ?thesis by (simp add: touch_def)
  next
    case False
    then have "map_of cls k = None"
      by (simp add: map_of_eq_None_iff)
    with False show ?thesis
      by (simp add: touch_def class_of_def map_of_insort_key_fresh)
  qed
qed

lemma class_of_touch_all [simp]: "class_of (touch_all cls ks) = class_of cls"
  unfolding touch_all_def by (induction ks arbitrary: cls) simp_all

lemma superclasses_of_cong:
  "class_of cls1 = class_of cls \<Longrightarrow> superclasses_of g cls1 = superclasses_of g cls"
  by (simp add: superclasses_of_def fun_eq_iff)

lemma is_subclass_loop_total:
  assumes rank: "\<And>c s. s \<in> set (superclasses_of g cls c) \<Longrightarrow> rank s < (rank c :: nat)"
  shows "class_of cls1 = class_of cls \<Longrightarrow>
    \<exists>cls'. is_subclass_loop g target parents cls1
        = Some ((\<exists>p\<in>set parents. (p, target) \<in> (super_rel g cls)\<^sup>*), cls')
      \<and> class_of cls' = class_of cls"
proof (induction "image_mset rank (mset parents)" arbitrary: parents cls1 rule: less_induct)
  case less
  show ?case
  proof (cases "parents = []")
    case True
    then show ?thesis
      using less.prems by (subst is_subclass_loop.simps) simp
  next
    case False
    define candidate where "candidate = last parents"
    define parents' where "parents' = butlast parents"
    have parents: "parents = parents' @ [candidate]"
      using False by (simp add: candidate_def parents'_def)
    show ?thesis
    proof (cases "target = candidate")
      case True
      then have "is_subclass_loop g target parents cls1 = Some (True, cls1)"
        using False by (subst is_subclass_loop.simps) (simp add: candidate_def)
      moreover have "\<exists>p\<in>set parents. (p, target) \<in> (super_rel g cls)\<^sup>*"
        using True parents by auto
      ultimately show ?thesis
        using less.prems by simp
    next
      case ne: False
      define supers where "supers = superclasses_of g cls candidate"
      have supers1: "find_superclasses g (type (class_of cls1 candidate)) = supers"
        using less.prems by (simp add: supers_def superclasses_of_def)
      have step: "is_subclass_loop g target parents cls1
          = is_subclass_loop g target (parents' @ supers) (touch_all cls1 supers)"
        using False ne
        by (subst is_subclass_loop.simps)
          (simp add: parents'_def supers1 [unfolded candidate_def] Let_def candidate_def)
      have "image_mset rank (mset supers) < {#rank candidate#}"
        using rank by (auto simp: supers_def)
      then have "image_mset rank (mset (parents' @ supers)) < image_mset rank (mset parents)"
        unfolding parents by simp
      moreover have "class_of (touch_all cls1 supers) = class_of cls"
        using less.prems by simp
      ultimately obtain cls' where
        res: "is_subclass_loop g target (parents' @ supers) (touch_all cls1 supers)
          = Some ((\<exists>p\<in>set (parents' @ supers). (p, target) \<in> (super_rel g cls)\<^sup>*), cls')"
        and cls': "class_of cls' = class_of cls"
        using less.hyps by blast
      have "(candidate, target) \<in> (super_rel g cls)\<^sup>*
          \<longleftrightarrow> (\<exists>s\<in>set supers. (s, target) \<in> (super_rel g cls)\<^sup>*)"
      proof
        assume "(candidate, target) \<in> (super_rel g cls)\<^sup>*"
        then show "\<exists>s\<in>set supers. (s, target) \<in> (super_rel g cls)\<^sup>*"
          using ne by (cases rule: converse_rtranclE) (auto simp: super_rel_def supers_def)
      next
        assume "\<exists>s\<in>set supers. (s, target) \<in> (super_rel g cls)\<^sup>*"
        then obtain s where "s \<in> set supers" "(s, target) \<in> (super_rel g cls)\<^sup>*" by blast
        then show "(candidate, target) \<in> (super_rel g cls)\<^sup>*"
          by (auto simp: super_rel_def supers_def intro: converse_rtrancl_into_rtrancl)
      qed
      then have "(\<exists>p\<in>set (parents' @ supers). (p, target) \<in> (super_rel g cls)\<^sup>*)
          \<longleftrightarrow> (\<exists>p\<in>set parents. (p, target) \<in> (super_rel g cls)\<^sup>*)"
        unfolding parents by auto
      with res cls' step show ?thesis by simp
    qed
  qed
qed

lemma is_subclass_total:
  assumes rank: "\<And>c s. s \<in> set (superclasses_of g cls c) \<Longrightarrow> rank s < (rank c :: nat)"
  shows "\<exists>cls'. is_subclass g ty target cls
      = Some (is_transitive_subtype g cls (pointee_getAsString ty) target, cls')
    \<and> class_of cls' = class_of cls"
proof -
  define type_str where "type_str = pointee_getAsString ty"
  define supers where "supers = superclasses_of g cls type_str"
  have "class_of (touch_all (touch cls type_str) supers) = class_of cls"
    by simp
  from is_subclass_loop_total [of g cls rank, OF rank this, of target supers]
  obtain cls' where
    res: "is_subclass_loop g target supers (touch_all (touch cls type_str) supers)
      = Some ((\<exists>p\<in>set supers. (p, target) \<in> (super_rel g cls)\<^sup>*), cls')"
    and cls': "class_of cls' = class_of cls"
    by blast
  have "(\<exists>p\<in>set supers. (p, target) \<in> (super_rel g cls)\<^sup>*)
      \<longleftrightarrow> (type_str, target) \<in> (super_rel g cls)\<^sup>+"
  proof
    assume "\<exists>p\<in>set supers. (p, target) \<in> (super_rel g cls)\<^sup>*"
    then obtain p where "(type_str, p) \<in> super_rel g cls" "(p, target) \<in> (super_rel g cls)\<^sup>*"
      by (auto simp: super_rel_def supers_def)
    then show "(type_str, target) \<in> (super_rel g cls)\<^sup>+"
      by (rule rtrancl_into_trancl2)
  next
    assume "(type_str, target) \<in> (super_rel g cls)\<^sup>+"
    then obtain p where "(type_str, p) \<in> super_rel g cls" "(p, target) \<in> (super_rel g cls)\<^sup>*"
      by (blast dest: tranclD)
    then show "\<exists>p\<in>set supers. (p, target) \<in> (super_rel g cls)\<^sup>*"
      by (auto simp: super_rel_def supers_def)
  qed
  with res cls' show ?thesis
    by (simp add: is_subclass_def Let_def type_str_def supers_def superclasses_of_def
        is_transitive_subtype_def)
qed

lemma is_implicit_conversion_total:
  assumes rank: "\<And>c s. s \<in> set (superclasses_of g cls c) \<Longrightarrow> rank s < (rank c :: nat)"
    and ne: "params cons \<noteq> []"
  shows "\<exists>cls'. is_implicit_conversion g key cons cls
      = Some (Inr (converts_implicitly g cls key cons, cls'))"
proof (cases "params cons")
  case Nil
  with ne show ?thesis by simp
next
  case (Cons param rest)
  show ?thesis
  proof (cases "rest = [] \<and> is_isl_object_param param")
    case True
    from is_subclass_total [of g cls rank, OF rank, of "param_getOriginalType param" key]
    obtain cls' where
      "is_subclass g (param_getOriginalType param) key cls
        = Some (is_transitive_subtype g cls
            (pointee_getAsString (param_getOriginalType param)) key, cls')"
      by blast
    with True Cons show ?thesis
      by (simp add: is_implicit_conversion_def converts_implicitly_def is_isl_object_param_def Let_def)
  next
    case False
    with Cons have "\<not> converts_implicitly g cls key cons"
      by (auto simp: converts_implicitly_def)
    moreover from False Cons have "is_implicit_conversion g key cons cls = Some (Inr (False, cls))"
      by (auto simp: is_implicit_conversion_def is_isl_object_param_def Let_def)
    ultimately show ?thesis by simp
  qed
qed


lemma constructor_decl_marker:
  assumes "print_method_header g key clazz cons fullname True function_kind_constructor cls
    = Some (Inr (h, cls'))"
  obtains implicit c1 rest where
    "is_implicit_conversion g key cons cls = Some (Inr (implicit, c1))"
    "h = ''  inline '' @ (if implicit then ''/* implicit */ '' else ''explicit '') @ rest"
proof -
  from assms obtain marker c1 rest where
    m: "(if True \<and> function_kind_constructor = function_kind_constructor
             then bindG (is_implicit_conversion g key cons) (\<lambda>implicit.
                    liftE (Inr (if implicit then ''/* implicit */ '' else ''explicit '')))
             else liftE (Inr [])) cls = Some (Inr (marker, c1))"
    and h: "Inr ((if True
         then ''  '' @ (if function_kind_constructor = function_kind_static_method then ''static '' else [])
           @ ''inline '' @ marker
         else []) @ rest) = (Inr h :: error + string)"
    unfolding print_method_header_def Let_def bindG_Inr_iff liftE_Inr_iff
    by blast
  from m obtain implicit c0 where
    "is_implicit_conversion g key cons cls = Some (Inr (implicit, c0))"
    "marker = (if implicit then ''/* implicit */ '' else ''explicit '')"
    by (auto simp: bindG_Inr_iff liftE_Inr_iff)
  moreover from h have "h = ''  inline '' @ marker @ rest"
    by simp
  ultimately show ?thesis
    using that by blast
qed

text \<open>
  C4.  Let the superclass annotations be free of cycles, which a rank that falls along every
  superclass step certifies, and let the constructor have a parameter.  Then
  \<^verbatim>\<open>is_implicit_conversion\<close> returns, and it answers true exactly when the constructor has one
  parameter, an isl object whose class is a transitive subtype of the class under construction.
  The declaration of the constructor carries \<^verbatim>\<open>/* implicit */\<close> in that case and
  \<^verbatim>\<open>explicit\<close> in every other.
\<close>

theorem implicit_iff_single_subtype_parameter:
  assumes rank: "\<forall>c s. s \<in> set (superclasses_of g classes c) \<longrightarrow> rank s < (rank c :: nat)"
    and ne: "params cons \<noteq> []"
  shows "(\<exists>classes'. is_implicit_conversion g key cons classes
        = Some (Inr (converts_implicitly g classes key cons, classes')))
    \<and> (\<forall>clazz fullname h classes'.
        print_method_header g key clazz cons fullname True function_kind_constructor classes
          = Some (Inr (h, classes'))
        \<longrightarrow> (\<exists>rest. h = ''  inline ''
              @ (if converts_implicitly g classes key cons then ''/* implicit */ '' else ''explicit '')
              @ rest))"
proof (intro conjI allI impI)
  from rank have rank': "\<And>c s. s \<in> set (superclasses_of g classes c) \<Longrightarrow> rank s < rank c"
    by blast
  from is_implicit_conversion_total [of g classes rank, OF rank' ne]
  show total: "\<exists>classes'. is_implicit_conversion g key cons classes
        = Some (Inr (converts_implicitly g classes key cons, classes'))" .
  fix clazz fullname h classes'
  assume "print_method_header g key clazz cons fullname True function_kind_constructor classes
          = Some (Inr (h, classes'))"
  then obtain implicit c1 rest where
    "is_implicit_conversion g key cons classes = Some (Inr (implicit, c1))"
    "h = ''  inline '' @ (if implicit then ''/* implicit */ '' else ''explicit '') @ rest"
    by (rule constructor_decl_marker)
  with total show "\<exists>rest. h = ''  inline ''
      @ (if converts_implicitly g classes key cons then ''/* implicit */ '' else ''explicit '') @ rest"
    by auto
qed

theorem implicit_iff_single_subtype_parameter_witness:
  "(\<exists>rest classes'.
      print_method_header (ex_gen False) ''isl_set'' ex_set ex_from_basic_set ''isl_set_from_basic_set''
        True function_kind_constructor ex_classes
      = Some (Inr (''  inline /* implicit */ '' @ rest, classes')))
   \<and> (\<exists>rest classes'.
      print_method_header (ex_gen False) ''isl_set'' ex_set ex_intersect ''isl_set_intersect''
        True function_kind_constructor ex_classes
      = Some (Inr (''  inline explicit '' @ rest, classes')))
   \<and> is_transitive_subtype (ex_gen False) ex_classes ''isl_basic_set'' ''isl_set''"
proof -
  have supers: "superclasses_of (ex_gen False) ex_classes c
      = (if c = ''isl_basic_set'' then [''isl_set''] else [])" for c
    by (simp add: superclasses_of_def class_of_def ex_classes_def ex_gen_def ex_basic_set_def
        ex_set_def default_class_def)
  have rank: "\<forall>c s. s \<in> set (superclasses_of (ex_gen False) ex_classes c) \<longrightarrow> ex_rank s < ex_rank c"
    by (simp add: supers ex_rank_def)
  have sub: "is_transitive_subtype (ex_gen False) ex_classes ''isl_basic_set'' ''isl_set''"
    unfolding is_transitive_subtype_def
    by (rule r_into_trancl) (simp add: super_rel_def supers)
  have yes: "converts_implicitly (ex_gen False) ex_classes ''isl_set'' ex_from_basic_set"
    using sub
    by (simp add: converts_implicitly_def ex_from_basic_set_def is_isl_object_param_def ex_param_def
        ex_obj_def)
  have no: "\<not> converts_implicitly (ex_gen False) ex_classes ''isl_set'' ex_intersect"
    by (simp add: converts_implicitly_def ex_intersect_def)
  have ne: "params ex_from_basic_set \<noteq> []" "params ex_intersect \<noteq> []"
    by (simp_all add: ex_from_basic_set_def ex_intersect_def)
  have "succeeded (print_method_header (ex_gen False) ''isl_set'' ex_set ex_from_basic_set
      ''isl_set_from_basic_set'' True function_kind_constructor ex_classes)"
    by code_simp
  then obtain h1 c1 where run1:
    "print_method_header (ex_gen False) ''isl_set'' ex_set ex_from_basic_set
      ''isl_set_from_basic_set'' True function_kind_constructor ex_classes = Some (Inr (h1, c1))"
    by (elim succeededE) auto
  have "succeeded (print_method_header (ex_gen False) ''isl_set'' ex_set ex_intersect
      ''isl_set_intersect'' True function_kind_constructor ex_classes)"
    by code_simp
  then obtain h2 c2 where run2:
    "print_method_header (ex_gen False) ''isl_set'' ex_set ex_intersect
      ''isl_set_intersect'' True function_kind_constructor ex_classes = Some (Inr (h2, c2))"
    by (elim succeededE) auto
  from implicit_iff_single_subtype_parameter [OF rank ne(1), of "''isl_set''", THEN conjunct2,
      rule_format, OF run1]
  obtain rest1 where "h1 = ''  inline '' @ ''/* implicit */ '' @ rest1"
    unfolding if_P [OF yes] by blast
  moreover from implicit_iff_single_subtype_parameter [OF rank ne(2), of "''isl_set''", THEN conjunct2,
      rule_format, OF run2]
  obtain rest2 where "h2 = ''  inline '' @ ''explicit '' @ rest2"
    unfolding if_not_P [OF no] by blast
  ultimately show ?thesis
    using run1 run2 sub by simp
qed


section \<open>The class map during a run\<close>

lemma extends_refl [simp]: "extends cls cls"
  by (simp add: extends_def)

lemma extends_trans: "extends a b \<Longrightarrow> extends b c \<Longrightarrow> extends a c"
  by (auto simp: extends_def)

lemma extends_touch: "extends cls (touch cls k)"
proof (cases "k \<in> fst ` set cls")
  case True
  then show ?thesis by (simp add: touch_def)
next
  case False
  have "sorted_keys cls \<Longrightarrow> sorted_keys (insort_key fst (k, default_class) cls)"
    using False by (simp add: sorted_keys_def sorted_insort_key distinct_insort_key)
  moreover have "unprintable (insort_key fst (k, default_class) cls)"
    by (auto simp: unprintable_def set_insort_key default_class_def)
  ultimately show ?thesis
    using False by (simp add: touch_def extends_def)
qed

lemma extends_touch_all: "extends cls (touch_all cls ks)"
  unfolding touch_all_def
proof (induction ks arbitrary: cls)
  case Nil
  then show ?case by simp
next
  case (Cons k ks)
  have "extends cls (touch cls k)" by (rule extends_touch)
  moreover have "extends (touch cls k) (fold (\<lambda>k c. touch c k) ks (touch cls k))"
    by (rule Cons.IH)
  ultimately show ?case
    by (auto intro: extends_trans)
qed

lemmas is_subclass_loop_induct =
  is_subclass_loop.raw_induct [rotated 1, consumes 1, case_names step]

lemmas for_each_class_induct =
  for_each_class.raw_induct [rotated 1, consumes 1, case_names step]

lemma is_subclass_loop_extends:
  "is_subclass_loop g target parents cls = Some r \<Longrightarrow> extends cls (snd r)"
proof (induction g target parents cls r rule: is_subclass_loop_induct)
  case (step loop g target parents cls r)
  note 1 = step
  show ?case
  proof (cases "parents = [] \<or> target = last parents")
    case True
    with 1(2) have "snd r = cls" by (auto simp: Let_def split: if_splits)
    then show ?thesis by simp
  next
    case False
    define supers where "supers = find_superclasses g (type (class_of cls (last parents)))"
    from 1(2) False have "loop g target (butlast parents @ supers) (touch_all cls supers) = Some r"
      by (simp add: Let_def supers_def)
    then have "extends (touch_all cls supers) (snd r)"
      by (rule 1(1))
    with extends_touch_all [of cls supers] show ?thesis
      by (rule extends_trans)
  qed
qed

lemma is_subclass_extends:
  "is_subclass g ty target cls = Some r \<Longrightarrow> extends cls (snd r)"
  unfolding is_subclass_def Let_def
  by (blast intro: extends_trans extends_touch extends_touch_all dest: is_subclass_loop_extends)

lemma frame_liftE [simp]: "frame (liftE m)"
  by (simp add: frame_def liftE_Inr_iff)

lemma frame_bindG: "frame m \<Longrightarrow> (\<And>x. frame (f x)) \<Longrightarrow> frame (bindG m f)"
  unfolding frame_def bindG_Inr_iff by (blast intro: extends_trans)

lemma frame_seqG: "(\<And>m. m \<in> set ms \<Longrightarrow> frame m) \<Longrightarrow> frame (seqG ms)"
  by (induction ms) (simp_all add: frame_bindG)

lemma frame_is_implicit_conversion: "frame (is_implicit_conversion g key cons)"
  unfolding frame_def is_implicit_conversion_def Let_def
  by (auto split: list.splits if_splits dest: is_subclass_extends)

lemma frame_print_method_header:
  "frame (print_method_header g key clazz fd fullname is_declaration kind)"
  unfolding print_method_header_def Let_def
  by (intro frame_bindG frame_liftE) (simp add: frame_bindG frame_is_implicit_conversion)

lemma frame_print_class: "frame (print_class g key clazz)"
  unfolding print_class_def print_constructors_decl_def print_methods_decl_def
    print_method_group_decl_def print_method_decl_def
  by (intro frame_bindG frame_seqG frame_liftE)
    (auto simp: frame_print_method_header intro!: frame_seqG)

lemma for_each_class_extends_aux:
  "for_each_class body cur cls = Some r \<Longrightarrow>
   (\<forall>k c. frame (body k c)) \<longrightarrow> (\<forall>t cls'. r = Inr (t, cls') \<longrightarrow> extends cls cls')"
proof (induction body cur cls r rule: for_each_class_induct)
  case (step loop body cur cls r)
  note 1 = step
  show ?case
  proof (intro allI impI)
    fix t cls'
    assume body: "\<forall>k c. frame (body k c)" and r: "r = Inr (t, cls')"
    show "extends cls cls'"
    proof (cases "next_entry cur cls")
      case None
      with 1(2) r show ?thesis by auto
    next
      case (Some e)
      from 1(2) Some obtain r1 where
        b0: "body (fst e) (snd e) cls = Some r1"
        and k1: "(case r1 of Inl err \<Rightarrow> Some (Inl err)
              | Inr tc \<Rightarrow>
                  Option.bind (loop body (Some (fst e)) (snd tc))
                   (\<lambda>r'. case r' of Inl err \<Rightarrow> Some (Inl err)
                         | Inr tc' \<Rightarrow>
                             Some (Inr ((if cur = None then [] else NL) @ fst tc @ fst tc',
                               snd tc')))) = Some r"
        by (auto simp: bind_eq_Some_conv)
      from k1 r obtain tc where r1: "r1 = Inr tc"
        by (cases r1) auto
      with k1 obtain r2 where
        l0: "loop body (Some (fst e)) (snd tc) = Some r2"
        and k2: "(case r2 of Inl err \<Rightarrow> Some (Inl err)
              | Inr tc' \<Rightarrow>
                  Some (Inr ((if cur = None then [] else NL) @ fst tc @ fst tc', snd tc')))
            = Some r"
        by (auto simp: bind_eq_Some_conv)
      from k2 r obtain tc' where r2: "r2 = Inr tc'" and c: "snd tc' = cls'"
        by (cases r2) auto
      have "body (fst e) (snd e) cls = Some (Inr (fst tc, snd tc))"
        using b0 r1 by simp
      with body have "extends cls (snd tc)"
        unfolding frame_def by blast
      moreover have "tc' = (fst tc', cls')"
        using c by (cases tc') simp
      with 1(1) [OF l0] body r2 have "extends (snd tc) cls'"
        by blast
      ultimately show ?thesis
        by (rule extends_trans)
    qed
  qed
qed

lemma for_each_class_extends:
  assumes "\<And>k c. frame (body k c)"
    and "for_each_class body cur cls = Some (Inr (t, cls'))"
  shows "extends cls cls'"
  using for_each_class_extends_aux [OF assms(2)] assms(1) by blast

lemma print_declarations_extends:
  "print_declarations g cls = Some (Inr (t, cls')) \<Longrightarrow> extends cls cls'"
  unfolding print_declarations_def
  by (rule for_each_class_extends [OF frame_print_class])


lemma reads_only_liftE [simp]: "reads_only (liftE m)"
  by (simp add: reads_only_def liftE_Inr_iff)

lemma reads_only_bindG: "reads_only m \<Longrightarrow> (\<And>x. reads_only (f x)) \<Longrightarrow> reads_only (bindG m f)"
  unfolding reads_only_def bindG_Inr_iff by blast

lemma reads_only_seqG: "(\<And>m. m \<in> set ms \<Longrightarrow> reads_only m) \<Longrightarrow> reads_only (seqG ms)"
  by (induction ms) (simp_all add: reads_only_bindG)

lemma set_separated: "set (separated sep ms) \<subseteq> insert sep (set ms)"
  by (induction sep ms rule: separated.induct) auto

lemma reads_only_separated:
  "reads_only sep \<Longrightarrow> (\<And>m. m \<in> set ms \<Longrightarrow> reads_only m) \<Longrightarrow> reads_only (seqG (separated sep ms))"
  using set_separated [of sep ms] by (intro reads_only_seqG) auto

lemma reads_only_print_method_impl:
  "reads_only (print_method_impl g key clazz fullname fd kind)"
  unfolding reads_only_def
proof (intro allI impI)
  fix cls x cls'
  assume "print_method_impl g key clazz fullname fd kind cls = Some (Inr (x, cls'))"
  then obtain header where
    "print_method_header g key clazz fd fullname False kind cls = Some (Inr (header, cls'))"
    by (elim print_method_impl_Inr)
  then show "cls' = cls"
    by (elim print_method_header_Inr) simp
qed

lemma reads_only_print_constructors_impl: "reads_only (print_constructors_impl g key clazz)"
  unfolding print_constructors_impl_def
  by (rule reads_only_seqG) (auto simp: reads_only_print_method_impl)

lemma reads_only_print_method_group_impl:
  "reads_only (print_method_group_impl g key clazz fullname fds)"
  unfolding print_method_group_impl_def
  by (rule reads_only_separated) (auto simp: reads_only_print_method_impl)

lemma reads_only_print_methods_impl: "reads_only (print_methods_impl g key clazz)"
  unfolding print_methods_impl_def
  by (rule reads_only_separated) (auto simp: reads_only_print_method_group_impl)

lemma reads_only_print_class_impl: "reads_only (print_class_impl g key clazz)"
  unfolding print_class_impl_def
  by (intro reads_only_bindG reads_only_seqG reads_only_liftE)
    (auto simp: reads_only_print_constructors_impl reads_only_print_methods_impl)

lemma print_class_impl_printable:
  assumes "print_class_impl g key clazz cls = Some (Inr (t, cls'))"
  shows "4 \<le> length (subclass_name clazz)"
proof -
  from assms obtain cppname where "type2cpp_class clazz = Inr cppname"
    unfolding print_class_impl_def bindG_Inr_iff liftE_Inr_iff by blast
  then show ?thesis
    by (auto simp: type2cpp_class_def type2cpp_str_def split: if_splits)
qed

lemma sorted_keys_nth_less:
  assumes "sorted_keys cls" "i < j" "j < length cls"
  shows "fst (cls ! i) < fst (cls ! j)"
proof -
  have len: "i < length (map fst cls)" "j < length (map fst cls)"
    using assms by simp_all
  from assms have "sorted (map fst cls)" and d: "distinct (map fst cls)"
    by (simp_all add: sorted_keys_def)
  then have "map fst cls ! i \<le> map fst cls ! j"
    using assms(2) len(2) by (intro sorted_nth_mono) simp_all
  moreover have "map fst cls ! i \<noteq> map fst cls ! j"
    using nth_eq_iff_index_eq [OF d len] assms(2) by blast
  ultimately show ?thesis
    using assms by simp
qed

lemma for_each_class_visits_all_aux:
  "for_each_class body cur cls = Some r \<Longrightarrow>
   (\<forall>k c cls t cls'. body k c cls = Some (Inr (t, cls')) \<longrightarrow> cls' = cls \<and> good c) \<longrightarrow>
   sorted_keys cls \<longrightarrow>
   (\<forall>t cls'. r = Inr (t, cls') \<longrightarrow> cls' = cls \<and> (\<forall>e\<in>set cls. after cur e \<longrightarrow> good (snd e)))"
proof (induction body cur cls r rule: for_each_class_induct)
  case (step loop body cur cls r)
  show ?case
  proof (intro allI impI)
    fix t cls'
    assume body: "\<forall>k c cls t cls'. body k c cls = Some (Inr (t, cls')) \<longrightarrow> cls' = cls \<and> good c"
      and sk: "sorted_keys cls" and r: "r = Inr (t, cls')"
    show "cls' = cls \<and> (\<forall>e\<in>set cls. after cur e \<longrightarrow> good (snd e))"
    proof (cases "next_entry cur cls")
      case None
      then have "\<forall>e\<in>set cls. \<not> after cur e"
        by (auto simp: next_entry_def after_def find_None_iff)
      moreover from step(2) None r have "cls' = cls" by auto
      ultimately show ?thesis by blast
    next
      case (Some e)
      from step(2) Some obtain r1 where
        b0: "body (fst e) (snd e) cls = Some r1"
        and k1: "(case r1 of Inl err \<Rightarrow> Some (Inl err)
              | Inr tc \<Rightarrow>
                  Option.bind (loop body (Some (fst e)) (snd tc))
                   (\<lambda>r'. case r' of Inl err \<Rightarrow> Some (Inl err)
                         | Inr tc' \<Rightarrow>
                             Some (Inr ((if cur = None then [] else NL) @ fst tc @ fst tc',
                               snd tc')))) = Some r"
        by (auto simp: bind_eq_Some_conv)
      from k1 r obtain tc where r1: "r1 = Inr tc"
        by (cases r1) auto
      with k1 obtain r2 where
        l0: "loop body (Some (fst e)) (snd tc) = Some r2"
        and k2: "(case r2 of Inl err \<Rightarrow> Some (Inl err)
              | Inr tc' \<Rightarrow>
                  Some (Inr ((if cur = None then [] else NL) @ fst tc @ fst tc', snd tc')))
            = Some r"
        by (auto simp: bind_eq_Some_conv)
      from k2 r obtain tc' where r2: "r2 = Inr tc'" and c: "snd tc' = cls'"
        by (cases r2) auto
      have "body (fst e) (snd e) cls = Some (Inr (fst tc, snd tc))"
        using b0 r1 by simp
      with body have same: "snd tc = cls" and good_e: "good (snd e)"
        by blast+
      have "tc' = (fst tc', cls')"
        using c by (cases tc') simp
      with step(1) [OF l0] body sk r2 same
      have rest: "cls' = cls" "\<forall>x\<in>set cls. after (Some (fst e)) x \<longrightarrow> good (snd x)"
        by auto
      from Some obtain i where i: "i < length cls" "after cur (cls ! i)" "e = cls ! i"
        "\<forall>j<i. \<not> after cur (cls ! j)"
        unfolding next_entry_def find_Some_iff after_def by blast
      have "good (snd x)" if x: "x \<in> set cls" "after cur x" for x
      proof -
        from x(1) obtain j where j: "j < length cls" "x = cls ! j"
          by (auto simp: in_set_conv_nth)
        with x(2) i(4) have "\<not> j < i" by blast
        show ?thesis
        proof (cases "j = i")
          case True
          with j i(3) good_e show ?thesis by simp
        next
          case False
          with \<open>\<not> j < i\<close> have "i < j" by simp
          from sorted_keys_nth_less [OF sk this j(1)] have "after (Some (fst e)) x"
            by (simp add: after_def i(3) j(2))
          with rest(2) x(1) show ?thesis by blast
        qed
      qed
      with rest(1) show ?thesis by blast
    qed
  qed
qed

lemma print_implementations_reads_only:
  assumes "sorted_keys cls" "print_implementations g cls = Some (Inr (t, cls'))"
  shows "cls' = cls" and "\<not> unprintable cls"
proof -
  have body: "\<forall>k c cls t cls'. print_class_impl g k c cls = Some (Inr (t, cls'))
      \<longrightarrow> cls' = cls \<and> 4 \<le> length (subclass_name c)"
    using reads_only_print_class_impl print_class_impl_printable
    unfolding reads_only_def by blast
  from for_each_class_visits_all_aux [OF assms(2) [unfolded print_implementations_def],
      of "\<lambda>c. 4 \<le> length (subclass_name c)"] body assms(1)
  have "cls' = cls \<and> (\<forall>e\<in>set cls. after None e \<longrightarrow> 4 \<le> length (subclass_name (snd e)))"
    by blast
  then show "cls' = cls" and "\<not> unprintable cls"
    by (auto simp: unprintable_def after_def)
qed

lemma generate_passes:
  assumes "generate g classes = Some (Inr (out, classes'))"
  obtains decls impls c1 where
    "print_declarations g classes = Some (Inr (decls, c1))"
    "print_implementations g c1 = Some (Inr (impls, classes'))"
  using assms unfolding generate_def seqG_Cons_Inr_iff liftE_Inr_iff
  by (auto simp: liftE_Inr_iff)

lemma completed_run_reads_only:
  assumes "sorted_keys classes"
    and "generate g classes = Some (Inr (out, classes'))"
  obtains decls impls where
    "classes' = classes" "\<not> unprintable classes"
    "print_declarations g classes = Some (Inr (decls, classes))"
    "print_implementations g classes = Some (Inr (impls, classes))"
proof -
  from assms(2) obtain decls impls c1 where
    decls: "print_declarations g classes = Some (Inr (decls, c1))"
    and impls: "print_implementations g c1 = Some (Inr (impls, classes'))"
    by (rule generate_passes)
  from print_declarations_extends [OF decls] assms(1)
  have sk: "sorted_keys c1" and c1: "c1 = classes \<or> unprintable c1"
    by (simp_all add: extends_def)
  from print_implementations_reads_only [OF sk impls] c1
  have "classes' = c1" "c1 = classes" "\<not> unprintable c1"
    by simp_all
  with decls impls show ?thesis
    using that by blast
qed


section \<open>The three regions of the output\<close>

lemma sorted_keys_Cons:
  "sorted_keys (x # xs) \<longleftrightarrow> sorted_keys xs \<and> (\<forall>y\<in>set xs. fst x < fst y)"
  by (auto simp: sorted_keys_def order_less_le)

lemma next_entry_find: "next_entry cur cls = find (after cur) cls"
  by (simp add: next_entry_def after_def [abs_def])

lemma next_entry_filter:
  "sorted_keys cls \<Longrightarrow> next_entry cur cls = Some e \<Longrightarrow>
   filter (after cur) cls = e # filter (after (Some (fst e))) cls"
proof (induction cls)
  case Nil
  then show ?case by (simp add: next_entry_def)
next
  case (Cons x rest)
  from Cons.prems(1) have sk: "sorted_keys rest" and gt: "\<forall>y\<in>set rest. fst x < fst y"
    by (simp_all add: sorted_keys_Cons)
  note nx = next_entry_find
  show ?case
  proof (cases "after cur x")
    case True
    with Cons.prems(2) have e: "e = x"
      by (simp add: nx)
    have "after cur y" if "y \<in> set rest" for y
      using True gt that by (cases cur) (auto simp: after_def)
    then have "filter (after cur) rest = rest"
      by (simp add: filter_id_conv)
    moreover have "filter (after (Some (fst x))) rest = rest"
      using gt by (simp add: filter_id_conv after_def)
    moreover have "\<not> after (Some (fst x)) x"
      by (simp add: after_def)
    ultimately show ?thesis
      using True by (simp add: e)
  next
    case False
    with Cons.prems(2) have found: "next_entry cur rest = Some e"
      by (simp add: nx)
    then have "e \<in> set rest"
      by (auto simp: nx find_Some_iff)
    with gt have "\<not> after (Some (fst e)) x"
      by (auto simp: after_def)
    with Cons.IH [OF sk found] False show ?thesis
      by simp
  qed
qed

lemma concat_separated:
  "concat (separated sep (x # xs)) = x @ concat (map (\<lambda>y. sep @ y) xs)"
  by (induction xs arbitrary: x) simp_all

lemma for_each_class_texts:
  assumes fr: "\<And>k c. frame (body k c)" and sk: "sorted_keys cls" and pr: "\<not> unprintable cls"
  shows "for_each_class body cur cls = Some (Inr (t, cls)) \<Longrightarrow>
     \<exists>ts. list_all2 (\<lambda>e t. body (fst e) (snd e) cls = Some (Inr (t, cls))) (filter (after cur) cls) ts
       \<and> t = (if cur = None then concat (separated NL ts) else concat (map (\<lambda>y. NL @ y) ts))"
proof (induction "length (filter (after cur) cls)" arbitrary: cur t)
  case 0
  then have "next_entry cur cls = None"
    by (auto simp: next_entry_find find_None_iff filter_empty_conv)
  with "0.prems" have "t = []"
    by (subst (asm) for_each_class.simps) simp
  with 0(1) show ?case by simp
next
  case (Suc n)
  from Suc(2) have "filter (after cur) cls \<noteq> []"
    by auto
  then have "next_entry cur cls \<noteq> None"
    by (auto simp: next_entry_find find_None_iff filter_empty_conv)
  then obtain e where e: "next_entry cur cls = Some e"
    by auto
  have "for_each_class body cur cls =
      Option.bind (body (fst e) (snd e) cls) (\<lambda>r.
        case r of
          Inl err \<Rightarrow> Some (Inl err)
        | Inr tc \<Rightarrow>
            Option.bind (for_each_class body (Some (fst e)) (snd tc)) (\<lambda>r'.
              case r' of
                Inl err \<Rightarrow> Some (Inl err)
              | Inr tc' \<Rightarrow>
                  Some (Inr ((if cur = None then [] else NL) @ fst tc @ fst tc', snd tc'))))"
    by (subst for_each_class.simps) (simp add: e)
  with Suc.prems obtain r1 where
    b0: "body (fst e) (snd e) cls = Some r1"
    and k1: "(case r1 of
          Inl err \<Rightarrow> Some (Inl err)
        | Inr tc \<Rightarrow>
            Option.bind (for_each_class body (Some (fst e)) (snd tc)) (\<lambda>r'.
              case r' of
                Inl err \<Rightarrow> Some (Inl err)
              | Inr tc' \<Rightarrow>
                  Some (Inr ((if cur = None then [] else NL) @ fst tc @ fst tc', snd tc'))))
        = Some (Inr (t, cls))"
    by (auto simp: bind_eq_Some_conv)
  from k1 obtain tc where r1: "r1 = Inr tc"
    by (cases r1) auto
  with k1 obtain r2 where
    l0: "for_each_class body (Some (fst e)) (snd tc) = Some r2"
    and k2: "(case r2 of
          Inl err \<Rightarrow> Some (Inl err)
        | Inr tc' \<Rightarrow>
            Some (Inr ((if cur = None then [] else NL) @ fst tc @ fst tc', snd tc')))
        = Some (Inr (t, cls))"
    by (auto simp: bind_eq_Some_conv)
  from k2 obtain tc' where r2: "r2 = Inr tc'"
    and t': "t = (if cur = None then [] else NL) @ fst tc @ fst tc'" and c': "snd tc' = cls"
    by (cases r2) auto
  define t1 c1 t2 where "t1 = fst tc" and "c1 = snd tc" and "t2 = fst tc'"
  have b: "body (fst e) (snd e) cls = Some (Inr (t1, c1))"
    using b0 r1 by (simp add: t1_def c1_def)
  have "tc' = (t2, cls)"
    using c' by (cases tc') (simp add: t2_def)
  with l0 r2 have l: "for_each_class body (Some (fst e)) c1 = Some (Inr (t2, cls))"
    by (simp add: c1_def)
  have t: "t = (if cur = None then [] else NL) @ t1 @ t2"
    using t' by (simp add: t1_def t2_def)
  from fr b have "extends cls c1"
    unfolding frame_def by blast
  moreover from for_each_class_extends [OF fr l] have "extends c1 cls" .
  ultimately have c1: "c1 = cls"
    using pr by (auto simp: extends_def)
  note flt = next_entry_filter [OF sk e]
  from Suc(2) have "n = length (filter (after (Some (fst e))) cls)"
    by (simp add: flt)
  from Suc(1) [OF this l [unfolded c1]] obtain ts where
    ts: "list_all2 (\<lambda>e t. body (fst e) (snd e) cls = Some (Inr (t, cls)))
        (filter (after (Some (fst e))) cls) ts"
    and t2: "t2 = concat (map (\<lambda>y. NL @ y) ts)"
    by auto
  have "list_all2 (\<lambda>e t. body (fst e) (snd e) cls = Some (Inr (t, cls)))
        (filter (after cur) cls) (t1 # ts)"
    using ts b by (simp add: flt c1)
  moreover have "t = (if cur = None then concat (separated NL (t1 # ts))
      else concat (map (\<lambda>y. NL @ y) (t1 # ts)))"
    by (simp add: t t2 concat_separated)
  ultimately show ?case by blast
qed

lemma filter_after_None [simp]: "filter (after None) cls = cls"
  by (simp add: after_def)

lemma reads_only_frame: "reads_only m \<Longrightarrow> frame m"
  unfolding reads_only_def frame_def by (metis extends_refl)

lemma type2cpp_class_Inr:
  "type2cpp_class clazz = Inr cppname \<Longrightarrow> cppname = drop 4 (subclass_name clazz)"
  by (auto simp: type2cpp_class_def type2cpp_str_def split: if_splits)

lemma print_class_first_line:
  assumes "print_class g k clazz cls = Some (Inr (d, cls'))"
  shows "prefix (''// declarations for isl::'' @ drop 4 (subclass_name clazz) @ NL) d"
proof -
  from assms obtain cppname rest where
    "type2cpp_class clazz = Inr cppname"
    "d = (''// declarations for isl::'' @ cppname @ NL) @ rest"
    unfolding print_class_def bindG_Inr_iff seqG_Cons_Inr_iff liftE_Inr_iff sum.inject
    by blast
  then show ?thesis
    by (auto dest: type2cpp_class_Inr)
qed

lemma print_class_impl_first_line:
  assumes "print_class_impl g k clazz cls = Some (Inr (d, cls'))"
  shows "prefix (''// implementations for isl::'' @ drop 4 (subclass_name clazz) @ NL) d"
proof -
  from assms obtain cppname rest where
    "type2cpp_class clazz = Inr cppname"
    "d = (''// implementations for isl::'' @ cppname @ NL) @ rest"
    unfolding print_class_impl_def bindG_Inr_iff seqG_Cons_Inr_iff liftE_Inr_iff sum.inject
    by blast
  then show ?thesis
    by (auto dest: type2cpp_class_Inr)
qed

text \<open>
  C8.  The text of a run that returns, for a class map with sorted keys as \<^verbatim>\<open>std::map\<close>
  keeps them: the opening of the namespace \<^verbatim>\<open>isl\<close>; the opening of the inline namespace
  \<^verbatim>\<open>noexceptions\<close> exactly when no exceptions are generated; the forward declarations,
  one line for every class of the map in key order; a blank line; the declaration of every
  class of the map in key order, each being what \<^verbatim>\<open>print_class\<close> prints for that class
  and starting with the comment that names it, with a blank line between two classes; a
  blank line; the implementation of every class in the same order, each being what
  \<^verbatim>\<open>print_class_impl\<close> prints for that class and starting with the comment that names
  it, with a blank line between two classes; the closing of the inline namespace under the
  same condition; and the closing of the namespace.
\<close>

theorem generate_three_regions:
  assumes "sorted_keys classes"
    and "generate g classes = Some (Inr (out, classes'))"
  shows "\<exists>decls impls.
      list_all2 (\<lambda>e d. print_class g (fst e) (snd e) classes = Some (Inr (d, classes))
          \<and> prefix (''// declarations for isl::'' @ drop 4 (subclass_name (snd e)) @ NL) d)
        classes decls
    \<and> list_all2 (\<lambda>e i. print_class_impl g (fst e) (snd e) classes = Some (Inr (i, classes))
          \<and> prefix (''// implementations for isl::'' @ drop 4 (subclass_name (snd e)) @ NL) i)
        classes impls
    \<and> out = NL @ ''namespace isl {'' @ NL @ NL
        @ (if noexceptions g then ''inline namespace noexceptions {'' @ NL @ NL else [])
        @ ''// forward declarations'' @ NL
        @ concat (map (\<lambda>e. ''class '' @ drop 4 (subclass_name (snd e)) @ '';'' @ NL) classes)
        @ NL
        @ concat (separated NL decls)
        @ NL
        @ concat (separated NL impls)
        @ (if noexceptions g then ''} // namespace noexceptions'' @ NL else [])
        @ ''} // namespace isl'' @ NL"
proof -
  from assms obtain dtext itext where
    pr: "\<not> unprintable classes"
    and dpass: "print_declarations g classes = Some (Inr (dtext, classes))"
    and ipass: "print_implementations g classes = Some (Inr (itext, classes))"
    by (rule completed_run_reads_only)
  from assms(2) obtain fwd d' i' c1 c2 where
    fwd: "print_forward_declarations classes = Inr fwd"
    and d': "print_declarations g classes = Some (Inr (d', c1))"
    and i': "print_implementations g c1 = Some (Inr (i', c2))"
    and out: "out = NL @ ''namespace isl {'' @ NL @ NL
        @ (if noexceptions g then ''inline namespace noexceptions {'' @ NL @ NL else [])
        @ fwd @ NL @ d' @ NL @ i'
        @ (if noexceptions g then ''} // namespace noexceptions'' @ NL else [])
        @ ''} // namespace isl'' @ NL"
    unfolding generate_def seqG_Cons_Inr_iff liftE_Inr_iff
    by (auto simp: liftE_Inr_iff)
  from d' dpass have d'_eq: "d' = dtext" "c1 = classes" by simp_all
  with i' ipass have i'_eq: "i' = itext" by simp
  from for_each_class_texts [OF frame_print_class assms(1) pr dpass [unfolded print_declarations_def]]
  obtain decls where
    decls: "list_all2 (\<lambda>e d. print_class g (fst e) (snd e) classes = Some (Inr (d, classes)))
        classes decls"
    and dtext: "dtext = concat (separated NL decls)"
    by auto
  from for_each_class_texts [OF reads_only_frame [OF reads_only_print_class_impl] assms(1) pr
      ipass [unfolded print_implementations_def]]
  obtain impls where
    impls: "list_all2 (\<lambda>e i. print_class_impl g (fst e) (snd e) classes = Some (Inr (i, classes)))
        classes impls"
    and itext: "itext = concat (separated NL impls)"
    by auto
  have decls': "list_all2 (\<lambda>e d. print_class g (fst e) (snd e) classes = Some (Inr (d, classes))
          \<and> prefix (''// declarations for isl::'' @ drop 4 (subclass_name (snd e)) @ NL) d)
        classes decls"
    using decls by (rule list_all2_mono) (auto dest: print_class_first_line)
  have impls': "list_all2 (\<lambda>e i. print_class_impl g (fst e) (snd e) classes = Some (Inr (i, classes))
          \<and> prefix (''// implementations for isl::'' @ drop 4 (subclass_name (snd e)) @ NL) i)
        classes impls"
    using impls by (rule list_all2_mono) (auto dest: print_class_impl_first_line)
  have "out = NL @ ''namespace isl {'' @ NL @ NL
        @ (if noexceptions g then ''inline namespace noexceptions {'' @ NL @ NL else [])
        @ ''// forward declarations'' @ NL
        @ concat (map (\<lambda>e. ''class '' @ drop 4 (subclass_name (snd e)) @ '';'' @ NL) classes)
        @ NL
        @ concat (separated NL decls)
        @ NL
        @ concat (separated NL impls)
        @ (if noexceptions g then ''} // namespace noexceptions'' @ NL else [])
        @ ''} // namespace isl'' @ NL"
    unfolding out print_forward_declarations_text [OF fwd] d'_eq i'_eq dtext itext by simp
  with decls' impls' show ?thesis by blast
qed

theorem generate_three_regions_witness:
  "sorted_keys ex_classes
   \<and> (\<exists>out d1 d2 i1 i2 cls'.
        generate (ex_gen True) ex_classes = Some (Inr (out, cls'))
      \<and> print_class (ex_gen True) ''isl_basic_set'' ex_basic_set ex_classes = Some (Inr (d1, ex_classes))
      \<and> print_class (ex_gen True) ''isl_set'' ex_set ex_classes = Some (Inr (d2, ex_classes))
      \<and> print_class_impl (ex_gen True) ''isl_basic_set'' ex_basic_set ex_classes
          = Some (Inr (i1, ex_classes))
      \<and> print_class_impl (ex_gen True) ''isl_set'' ex_set ex_classes = Some (Inr (i2, ex_classes))
      \<and> prefix (''// declarations for isl::basic_set'' @ NL) d1
      \<and> prefix (''// declarations for isl::set'' @ NL) d2
      \<and> prefix (''// implementations for isl::basic_set'' @ NL) i1
      \<and> prefix (''// implementations for isl::set'' @ NL) i2
      \<and> out = NL @ ''namespace isl {'' @ NL @ NL
          @ ''inline namespace noexceptions {'' @ NL @ NL
          @ ''// forward declarations'' @ NL
          @ ''class basic_set;'' @ NL
          @ ''class set;'' @ NL
          @ NL
          @ d1 @ NL @ d2
          @ NL
          @ i1 @ NL @ i2
          @ ''} // namespace noexceptions'' @ NL
          @ ''} // namespace isl'' @ NL)"
proof -
  have sk: "sorted_keys ex_classes"
    by (simp add: sorted_keys_def ex_classes_def)
  have nx: "noexceptions (ex_gen True)"
    by (simp add: ex_gen_def)
  have cls: "ex_classes = [(''isl_basic_set'', ex_basic_set), (''isl_set'', ex_set)]"
    by (simp add: ex_classes_def)
  have names: "subclass_name ex_basic_set = ''isl_basic_set''" "subclass_name ex_set = ''isl_set''"
    by (simp_all add: ex_basic_set_def ex_set_def)
  from ex_generate_succeeds obtain out cls' where
    run: "generate (ex_gen True) ex_classes = Some (Inr (out, cls'))"
    by (elim succeededE) auto
  from generate_three_regions [OF sk run] obtain decls impls where
    decls: "list_all2 (\<lambda>e d. print_class (ex_gen True) (fst e) (snd e) ex_classes
            = Some (Inr (d, ex_classes))
          \<and> prefix (''// declarations for isl::'' @ drop 4 (subclass_name (snd e)) @ NL) d)
        [(''isl_basic_set'', ex_basic_set), (''isl_set'', ex_set)] decls"
    and impls: "list_all2 (\<lambda>e i. print_class_impl (ex_gen True) (fst e) (snd e) ex_classes
            = Some (Inr (i, ex_classes))
          \<and> prefix (''// implementations for isl::'' @ drop 4 (subclass_name (snd e)) @ NL) i)
        [(''isl_basic_set'', ex_basic_set), (''isl_set'', ex_set)] impls"
    and out: "out = NL @ ''namespace isl {'' @ NL @ NL
        @ (''inline namespace noexceptions {'' @ NL @ NL)
        @ ''// forward declarations'' @ NL
        @ concat (map (\<lambda>e. ''class '' @ drop 4 (subclass_name (snd e)) @ '';'' @ NL)
            [(''isl_basic_set'', ex_basic_set), (''isl_set'', ex_set)])
        @ NL
        @ concat (separated NL decls)
        @ NL
        @ concat (separated NL impls)
        @ (''} // namespace noexceptions'' @ NL)
        @ ''} // namespace isl'' @ NL"
    unfolding if_P [OF nx] unfolding cls [symmetric] by (auto simp: cls)
  from decls obtain d1 d2 where
    ds: "decls = [d1, d2]"
    and d1: "print_class (ex_gen True) ''isl_basic_set'' ex_basic_set ex_classes
        = Some (Inr (d1, ex_classes))"
      "prefix (''// declarations for isl::basic_set'' @ NL) d1"
    and d2: "print_class (ex_gen True) ''isl_set'' ex_set ex_classes = Some (Inr (d2, ex_classes))"
      "prefix (''// declarations for isl::set'' @ NL) d2"
    by (auto simp: list_all2_Cons1 names)
  from impls obtain i1 i2 where
    imps: "impls = [i1, i2]"
    and i1: "print_class_impl (ex_gen True) ''isl_basic_set'' ex_basic_set ex_classes
        = Some (Inr (i1, ex_classes))"
      "prefix (''// implementations for isl::basic_set'' @ NL) i1"
    and i2: "print_class_impl (ex_gen True) ''isl_set'' ex_set ex_classes
        = Some (Inr (i2, ex_classes))"
      "prefix (''// implementations for isl::set'' @ NL) i2"
    by (auto simp: list_all2_Cons1 names)
  have "out = NL @ ''namespace isl {'' @ NL @ NL
          @ ''inline namespace noexceptions {'' @ NL @ NL
          @ ''// forward declarations'' @ NL
          @ ''class basic_set;'' @ NL
          @ ''class set;'' @ NL
          @ NL
          @ d1 @ NL @ d2
          @ NL
          @ i1 @ NL @ i2
          @ ''} // namespace noexceptions'' @ NL
          @ ''} // namespace isl'' @ NL"
    unfolding out ds imps by (simp add: names)
  with sk run d1 d2 i1 i2 show ?thesis
    by blast
qed

section \<open>The class map after a lookup\<close>

text \<open>
  C9.  \<^verbatim>\<open>is_subclass\<close> reads the map with \<^verbatim>\<open>classes[...]\<close>, which stores a
  value-initialised class under a name that the map lacks.  On the map that holds only the
  class of sets, whose constructor takes a basic set, the question whether basic sets are a
  subclass of sets is answered with a second entry stored in the map; the declarations pass,
  which asks that question for the constructor, returns with the map so extended; and the run
  as a whole stops in the implementations pass, which meets the empty class.
\<close>

theorem is_subclass_stores_missing_class:
  "is_subclass (ex_gen True) (ex_obj ''isl_basic_set'') ''isl_set'' [(''isl_set'', ex_set)]
     = Some (False, [(''isl_basic_set'', default_class), (''isl_set'', ex_set)])
   \<and> map_option (map_sum id snd) (print_declarations (ex_gen True) [(''isl_set'', ex_set)])
     = Some (Inr [(''isl_basic_set'', default_class), (''isl_set'', ex_set)])
   \<and> generate (ex_gen True) [(''isl_set'', ex_set)] = Some (Inl Out_of_range)"
  by code_simp


end
